theory Spec2Isabelle
  imports Main "HOL-Library.Sublist"
begin

section \<open>Python strings\<close>

text \<open>
  A Python \<open>str\<close> is modelled as a \<open>string\<close>, one \<open>char\<close> per code point, so the
  model covers texts whose code points are below 256 (Latin-1). On that range
  \<open>str.isspace\<close>, which both the regular-expression class \<open>\s\<close> and \<open>str.strip()\<close>
  use, and \<open>str.lower()\<close> are the functions below.
\<close>

definition py_isspace :: "char \<Rightarrow> bool" where
  "py_isspace c =
     (let n = (of_char c :: nat)
      in (9 \<le> n \<and> n \<le> 13) \<or> (28 \<le> n \<and> n \<le> 32) \<or> n = 133 \<or> n = 160)"

definition py_lower_char :: "char \<Rightarrow> char" where
  "py_lower_char c =
     (let n = (of_char c :: nat)
      in if (65 \<le> n \<and> n \<le> 90) \<or> (192 \<le> n \<and> n \<le> 222 \<and> n \<noteq> 215)
         then char_of (n + 32) else c)"

definition py_lower :: "string \<Rightarrow> string" where
  "py_lower s = map py_lower_char s"

definition py_strip :: "string \<Rightarrow> string" where
  "py_strip s = rev (dropWhile py_isspace (rev (dropWhile py_isspace s)))"

definition endswith :: "string \<Rightarrow> string \<Rightarrow> bool" where
  "endswith s suf =
     (length suf \<le> length s \<and> drop (length s - length suf) s = suf)"

definition digit_char :: "nat \<Rightarrow> char" where
  "digit_char d = char_of (48 + d)"

text \<open>The decimal text of a number, as an f-string prints \<open>{i+1}\<close>.\<close>

function str_nat :: "nat \<Rightarrow> string" where
  "str_nat n = (if n < 10 then [digit_char n] else str_nat (n div 10) @ [digit_char (n mod 10)])"
  by pat_completeness auto
termination
  by (relation "measure id") auto

declare str_nat.simps [simp del]

definition LF :: char where
  "LF = CHR 0x0A"

text \<open>
  Iterating over a text file yields its lines, each with its terminating newline
  (the last one possibly without).
\<close>

fun file_lines_from :: "string \<Rightarrow> string \<Rightarrow> string list" where
  "file_lines_from acc [] = (if acc = [] then [] else [rev acc])"
| "file_lines_from acc (c # cs) =
     (if c = LF then rev (c # acc) # file_lines_from [] cs
      else file_lines_from (c # acc) cs)"

definition file_lines :: "string \<Rightarrow> string list" where
  "file_lines text = file_lines_from [] text"

section \<open>The fragment of regular expressions the program uses\<close>

text \<open>
  \<open>Lit\<close> is literal text, \<open>In\<close> one character of a class, \<open>Rep n\<close> the greedy
  repetition \<open>{n,}\<close> of a class (\<open>Rep 0\<close> is \<open>*\<close>), \<open>Opt\<close> is \<open>?\<close>.
  \<open>rmatch\<close> lists, in backtracking order, what is left of the text after each way of
  matching the pattern at its start; the flag is \<open>re.IGNORECASE\<close>, which on this
  range changes literal letters only: the classes of the program
  (\<open>\s\<close>, \<open>[:=]\<close>, the quotes, \<open>[a-zA-Z0-9_-]\<close>) contain every case variant of their
  members.
\<close>

datatype rx =
    Lit string
  | In "char \<Rightarrow> bool"
  | Rep nat "char \<Rightarrow> bool"
  | Seq rx rx
  | Alt rx rx
  | Opt rx

definition lit_eq :: "bool \<Rightarrow> string \<Rightarrow> string \<Rightarrow> bool" where
  "lit_eq ic l t = (if ic then py_lower t = py_lower l else t = l)"

fun rep_rests :: "(char \<Rightarrow> bool) \<Rightarrow> string \<Rightarrow> string list" where
  "rep_rests p [] = [[]]"
| "rep_rests p (c # cs) = (if p c then rep_rests p cs @ [c # cs] else [c # cs])"

fun rmatch :: "bool \<Rightarrow> rx \<Rightarrow> string \<Rightarrow> string list" where
  "rmatch ic (Lit l) s =
     (if lit_eq ic l (take (length l) s) then [drop (length l) s] else [])"
| "rmatch ic (In p) s = (case s of [] \<Rightarrow> [] | c # cs \<Rightarrow> if p c then [cs] else [])"
| "rmatch ic (Rep n p) s = filter (\<lambda>r. n + length r \<le> length s) (rep_rests p s)"
| "rmatch ic (Seq a b) s = concat (map (rmatch ic b) (rmatch ic a s))"
| "rmatch ic (Alt a b) s = rmatch ic a s @ rmatch ic b s"
| "rmatch ic (Opt a) s = rmatch ic a s @ [s]"

text \<open>\<open>re.search\<close> tries every start position, the end of the text included.\<close>

fun re_search :: "bool \<Rightarrow> rx \<Rightarrow> string \<Rightarrow> bool" where
  "re_search ic r [] = (rmatch ic r [] \<noteq> [])"
| "re_search ic r (c # cs) = (rmatch ic r (c # cs) \<noteq> [] \<or> re_search ic r cs)"

definition comment_token :: rx where
  "comment_token = Alt (Lit ''#'') (Alt (Lit ''//'') (Lit ''/*''))"

definition marker_re :: rx where
  "marker_re =
     Seq comment_token (Seq (Rep 0 py_isspace)
       (Alt (Lit ''TODO'') (Alt (Lit ''FIXME'') (Lit ''XXX''))))"

definition outdated_re :: rx where
  "outdated_re =
     Seq comment_token (Seq (Rep 0 py_isspace)
       (Alt (Lit ''deprecated'') (Alt (Lit ''obsolete'') (Lit ''old''))))"

definition is_sep :: "char \<Rightarrow> bool" where
  "is_sep c = (c = CHR '':'' \<or> c = CHR ''='')"

definition is_quote :: "char \<Rightarrow> bool" where
  "is_quote c = (c = CHR 0x22 \<or> c = CHR 0x27)"

definition is_token_char :: "char \<Rightarrow> bool" where
  "is_token_char c =
     (let n = (of_char c :: nat)
      in (97 \<le> n \<and> n \<le> 122) \<or> (65 \<le> n \<and> n \<le> 90) \<or> (48 \<le> n \<and> n \<le> 57)
         \<or> c = CHR ''_'' \<or> c = CHR ''-'')"

definition secret_re :: rx where
  "secret_re =
     Seq (Alt (Lit ''api_key'') (Alt (Lit ''apikey'') (Alt (Lit ''password'') (Lit ''secret''))))
       (Seq (Rep 0 py_isspace) (Seq (In is_sep) (Seq (Rep 0 py_isspace)
         (Seq (Opt (In is_quote)) (Seq (Rep 20 is_token_char) (Opt (In is_quote)))))))"

section \<open>The environment of a run\<close>

text \<open>
  What the program reads from outside is a parameter of the model: the file system,
  the YAML and JSON parsers and the external linters. Each call returns a value or
  raises; \<open>OtherException\<close> stands for any other subclass of \<open>Exception\<close>.
\<close>

datatype exn = FileNotFoundError | YAMLError string | JSONDecodeError string | OtherException

datatype pyval =
    PNone
  | PBool bool
  | PInt int
  | PStr string
  | PList "pyval list"
  | PDict "(pyval \<times> pyval) list"
  | POther

record completed =
  returncode :: int
  stdout :: string
  stderr :: string

record world =
  os_path_exists :: "string \<Rightarrow> bool"
  read_text :: "string \<Rightarrow> exn + string"
  yaml_safe_load :: "string \<Rightarrow> exn + pyval"
  json_loads :: "string \<Rightarrow> exn + pyval"
  subprocess_run :: "string list \<Rightarrow> exn + completed"

record args =
  arg_filepath :: string
  arg_verbose :: bool
  arg_filetype :: string
  arg_find_secrets :: bool

section \<open>analyze_comments\<close>

definition todo_warning :: "nat \<Rightarrow> string \<Rightarrow> string" where
  "todo_warning i line =
     ''Warning: Potential TODO/FIXME/XXX found on line '' @ str_nat (i + 1) @ '': '' @ py_strip line"

definition outdated_warning :: "nat \<Rightarrow> string \<Rightarrow> string" where
  "outdated_warning i line =
     ''Warning: Potential outdated comment found on line '' @ str_nat (i + 1) @ '': '' @ py_strip line"

fun comments_loop :: "nat \<Rightarrow> string list \<Rightarrow> string list \<Rightarrow> string list" where
  "comments_loop i [] warnings = warnings"
| "comments_loop i (line # rest) warnings =
     (let warnings1 = (if re_search False marker_re line
                       then warnings @ [todo_warning i line] else warnings);
          warnings2 = (if re_search True outdated_re line
                       then warnings1 @ [outdated_warning i line] else warnings1)
      in comments_loop (i + 1) rest warnings2)"

fun read_failure :: "exn \<Rightarrow> string list" where
  "read_failure FileNotFoundError = [''Error: File not found.'']"
| "read_failure e = [''Error: Failed to read file.'']"

definition analyze_comments :: "world \<Rightarrow> string \<Rightarrow> exn + string list" where
  "analyze_comments w filepath =
     (case read_text w filepath of
        Inl e \<Rightarrow> Inr (read_failure e)
      | Inr text \<Rightarrow> Inr (comments_loop 0 (file_lines text) []))"

section \<open>analyze_file_content\<close>

definition yamllint_check :: "world \<Rightarrow> string \<Rightarrow> string list \<Rightarrow> exn + string list" where
  "yamllint_check w filepath warnings =
     (case subprocess_run w [''yamllint'', filepath] of
        Inl FileNotFoundError \<Rightarrow> Inr warnings
      | Inl e \<Rightarrow> Inl e
      | Inr result \<Rightarrow>
          Inr (if returncode result \<noteq> 0
               then warnings @ [''yamllint found issues:'' @ [LF] @ stdout result]
               else if stdout result \<noteq> []
               then warnings @ [''yamllint reported:'' @ [LF] @ stdout result]
               else warnings))"

definition jsonlint_check :: "world \<Rightarrow> string \<Rightarrow> string list \<Rightarrow> exn + string list" where
  "jsonlint_check w filepath warnings =
     (case subprocess_run w [''jsonlint'', filepath] of
        Inl FileNotFoundError \<Rightarrow> Inr warnings
      | Inl e \<Rightarrow> Inl e
      | Inr result \<Rightarrow>
          Inr (if returncode result \<noteq> 0
               then warnings @ [''jsonlint found issues:'' @ [LF] @ stderr result]
               else if stdout result \<noteq> []
               then warnings @ [''jsonlint reported:'' @ [LF] @ stdout result]
               else warnings))"

definition yaml_rules :: "pyval \<Rightarrow> string list \<Rightarrow> string list" where
  "yaml_rules data warnings =
     (case data of
        PDict kvs \<Rightarrow>
          (case map_of kvs (PStr ''api_version'') of
             Some v \<Rightarrow>
               if v = PStr ''v1''
               then warnings @ [''Warning: api_version is v1, consider upgrading to a newer version.'']
               else warnings
           | None \<Rightarrow> warnings)
      | _ \<Rightarrow> warnings)"

definition json_rules :: "pyval \<Rightarrow> string list \<Rightarrow> string list" where
  "json_rules data warnings =
     (case data of
        PDict kvs \<Rightarrow>
          (case map_of kvs (PStr ''debug'') of
             Some v \<Rightarrow>
               if v = PBool True
               then warnings @ [''Warning: Debug mode is enabled. Disable in production.'']
               else warnings
           | None \<Rightarrow> warnings)
      | _ \<Rightarrow> warnings)"

definition analyze_yaml :: "world \<Rightarrow> string \<Rightarrow> string \<Rightarrow> string list \<Rightarrow> exn + string list" where
  "analyze_yaml w filepath content warnings =
     (case (case yaml_safe_load w content of
              Inl e \<Rightarrow> Inl e
            | Inr data \<Rightarrow>
                (case yamllint_check w filepath warnings of
                   Inl e \<Rightarrow> Inl e
                 | Inr warnings1 \<Rightarrow> Inr (yaml_rules data warnings1))) of
        Inl (YAMLError e) \<Rightarrow> Inr (warnings @ [''Error parsing YAML: '' @ e])
      | Inl e \<Rightarrow> Inl e
      | Inr warnings2 \<Rightarrow> Inr warnings2)"

definition analyze_json :: "world \<Rightarrow> string \<Rightarrow> string \<Rightarrow> string list \<Rightarrow> exn + string list" where
  "analyze_json w filepath content warnings =
     (case (case json_loads w content of
              Inl e \<Rightarrow> Inl e
            | Inr data \<Rightarrow>
                (case jsonlint_check w filepath warnings of
                   Inl e \<Rightarrow> Inl e
                 | Inr warnings1 \<Rightarrow> Inr (json_rules data warnings1))) of
        Inl (JSONDecodeError e) \<Rightarrow> Inr (warnings @ [''Error parsing JSON: '' @ e])
      | Inl e \<Rightarrow> Inl e
      | Inr warnings2 \<Rightarrow> Inr warnings2)"

definition analyze_typed :: "world \<Rightarrow> string \<Rightarrow> string \<Rightarrow> string \<Rightarrow> exn + string list" where
  "analyze_typed w filepath content filetype =
     (if filetype = ''yaml'' then analyze_yaml w filepath content []
      else if filetype = ''json'' then analyze_json w filepath content []
      else Inr [''Error: Invalid filetype specified.''])"

text \<open>
  The suffix test of the \<open>auto\<close> branch: the file type it selects, or \<open>None\<close> where the
  source logs that it could not detect one.
\<close>

definition detect_filetype :: "string \<Rightarrow> string option" where
  "detect_filetype filepath =
     (if endswith (py_lower filepath) ''.yaml'' \<or> endswith (py_lower filepath) ''.yml''
      then Some ''yaml''
      else if endswith (py_lower filepath) ''.json'' then Some ''json''
      else None)"

definition analyze_file_content_try :: "world \<Rightarrow> string \<Rightarrow> string \<Rightarrow> exn + string list" where
  "analyze_file_content_try w filepath filetype =
     (case read_text w filepath of
        Inl e \<Rightarrow> Inl e
      | Inr content \<Rightarrow>
          if filetype = ''auto'' then
            (case detect_filetype filepath of
               Some detected \<Rightarrow> analyze_typed w filepath content detected
             | None \<Rightarrow> analyze_comments w filepath)
          else analyze_typed w filepath content filetype)"

definition analyze_file_content :: "world \<Rightarrow> string \<Rightarrow> string \<Rightarrow> exn + string list" where
  "analyze_file_content w filepath filetype =
     (case analyze_file_content_try w filepath filetype of
        Inl e \<Rightarrow> Inr (read_failure e)
      | Inr warnings \<Rightarrow> Inr warnings)"

section \<open>find_secrets and main\<close>

definition secret_warning :: "nat \<Rightarrow> string \<Rightarrow> string" where
  "secret_warning i line =
     ''Potential secret found on line '' @ str_nat (i + 1) @ '': '' @ py_strip line"

fun secrets_loop :: "nat \<Rightarrow> string list \<Rightarrow> string list \<Rightarrow> string list" where
  "secrets_loop i [] secrets_found = secrets_found"
| "secrets_loop i (line # rest) secrets_found =
     secrets_loop (i + 1) rest
       (if re_search True secret_re line
        then secrets_found @ [secret_warning i line] else secrets_found)"

definition find_secrets :: "world \<Rightarrow> string \<Rightarrow> exn + string list" where
  "find_secrets w filepath =
     (case read_text w filepath of
        Inl e \<Rightarrow> Inr (read_failure e)
      | Inr text \<Rightarrow> Inr (secrets_loop 0 (file_lines text) []))"

text \<open>
  The list \<open>main\<close> prints: the analysis results, extended by the secrets when
  \<open>--find-secrets\<close> is given.
\<close>

definition analysis_results :: "args \<Rightarrow> world \<Rightarrow> exn + string list" where
  "analysis_results a w =
     (case analyze_file_content w (arg_filepath a) (arg_filetype a) of
        Inl e \<Rightarrow> Inl e
      | Inr results \<Rightarrow>
          if arg_find_secrets a then
            (case find_secrets w (arg_filepath a) of
               Inl e \<Rightarrow> Inl e
             | Inr secrets \<Rightarrow> Inr (results @ secrets))
          else Inr results)"


section \<open>Example environments\<close>

text \<open>
  A world in which the file exists or not, every read returns the same outcome, both
  parsers the same outcome and every external process the same outcome.
\<close>

definition fixed_world :: "bool \<Rightarrow> exn + string \<Rightarrow> exn + pyval \<Rightarrow> exn + completed \<Rightarrow> world" where
  "fixed_world present rd parsed proc =
     \<lparr>os_path_exists = (\<lambda>p. present), read_text = (\<lambda>p. rd),
      yaml_safe_load = (\<lambda>c. parsed), json_loads = (\<lambda>c. parsed),
      subprocess_run = (\<lambda>argv. proc)\<rparr>"

definition cli :: "string \<Rightarrow> string \<Rightarrow> bool \<Rightarrow> args" where
  "cli filepath filetype secrets =
     \<lparr>arg_filepath = filepath, arg_verbose = False, arg_filetype = filetype,
      arg_find_secrets = secrets\<rparr>"

section \<open>Regular-expression search\<close>

lemma re_search_here: "rmatch ic r s \<noteq> [] \<Longrightarrow> re_search ic r s"
  by (cases s) auto

lemma re_search_append: "rmatch ic r s \<noteq> [] \<Longrightarrow> re_search ic r (pre @ s)"
  by (induction pre) (auto simp: re_search_here)

lemma re_search_iff:
  "re_search ic r s \<longleftrightarrow> (\<exists>i\<le>length s. rmatch ic r (drop i s) \<noteq> [])"
proof (induction s)
  case Nil
  then show ?case by simp
next
  case (Cons c cs)
  show ?case
  proof
    assume "re_search ic r (c # cs)"
    then consider "rmatch ic r (c # cs) \<noteq> []" | "re_search ic r cs" by auto
    then show "\<exists>i\<le>length (c # cs). rmatch ic r (drop i (c # cs)) \<noteq> []"
    proof cases
      case 1
      then have "rmatch ic r (drop 0 (c # cs)) \<noteq> []" by simp
      then show ?thesis by blast
    next
      case 2
      with Cons obtain i where "i \<le> length cs" "rmatch ic r (drop i cs) \<noteq> []" by auto
      then have "Suc i \<le> length (c # cs) \<and> rmatch ic r (drop (Suc i) (c # cs)) \<noteq> []" by simp
      then show ?thesis by blast
    qed
  next
    assume "\<exists>i\<le>length (c # cs). rmatch ic r (drop i (c # cs)) \<noteq> []"
    then obtain i where i: "i \<le> length (c # cs)" "rmatch ic r (drop i (c # cs)) \<noteq> []" by blast
    show "re_search ic r (c # cs)"
    proof (cases i)
      case 0
      with i show ?thesis by simp
    next
      case (Suc j)
      with i have "j \<le> length cs" "rmatch ic r (drop j cs) \<noteq> []" by auto
      with Cons show ?thesis by auto
    qed
  qed
qed

lemma rep_rests_mem: "\<forall>c\<in>set ws. p c \<Longrightarrow> rest \<in> set (rep_rests p (ws @ rest))"
proof (induction ws)
  case Nil
  show ?case by (cases rest) auto
next
  case (Cons a ws)
  then show ?case by auto
qed

lemma rmatch_Rep_mem:
  "\<forall>c\<in>set ws. p c \<Longrightarrow> n \<le> length ws \<Longrightarrow> rest \<in> set (rmatch ic (Rep n p) (ws @ rest))"
  by (simp add: rep_rests_mem)

lemma rmatch_Lit_mem:
  "lit_eq ic l t \<Longrightarrow> length t = length l \<Longrightarrow> rest \<in> set (rmatch ic (Lit l) (t @ rest))"
  by simp

lemma rmatch_Seq_mem:
  "x \<in> set (rmatch ic a s) \<Longrightarrow> y \<in> set (rmatch ic b x) \<Longrightarrow> y \<in> set (rmatch ic (Seq a b) s)"
  by auto

lemma rmatch_Alt_mem:
  "x \<in> set (rmatch ic a s) \<or> x \<in> set (rmatch ic b s) \<Longrightarrow> x \<in> set (rmatch ic (Alt a b) s)"
  by auto

lemma lit_eq_lower: "py_lower t = l \<Longrightarrow> py_lower l = l \<Longrightarrow> lit_eq True l t"
  by (simp add: lit_eq_def)

lemma py_lower_length: "length (py_lower s) = length s"
  by (simp add: py_lower_def)


lemma comment_token_mem:
  "tok \<in> {''#'', ''//'', ''/*''} \<Longrightarrow> rest \<in> set (rmatch ic comment_token (tok @ rest))"
  by (auto simp: comment_token_def lit_eq_def py_lower_def py_lower_char_def)

lemma outdated_kw_mem:
  assumes "py_lower kw \<in> {''deprecated'', ''obsolete'', ''old''}"
  shows "rest \<in> set (rmatch True (Alt (Lit ''deprecated'') (Alt (Lit ''obsolete'') (Lit ''old''))) (kw @ rest))"
proof -
  from assms consider "py_lower kw = ''deprecated''" | "py_lower kw = ''obsolete''" | "py_lower kw = ''old''"
    by auto
  then show ?thesis
  proof cases
    case 1
    then have "length kw = length ''deprecated''" by (metis py_lower_length)
    with 1 show ?thesis by (simp add: lit_eq_def py_lower_def py_lower_char_def)
  next
    case 2
    then have "length kw = length ''obsolete''" by (metis py_lower_length)
    with 2 show ?thesis by (simp add: lit_eq_def py_lower_def py_lower_char_def)
  next
    case 3
    then have "length kw = length ''old''" by (metis py_lower_length)
    with 3 show ?thesis by (simp add: lit_eq_def py_lower_def py_lower_char_def)
  qed
qed

lemma outdated_shape:
  assumes "tok \<in> {''#'', ''//'', ''/*''}" "\<forall>c\<in>set ws. py_isspace c"
    "py_lower kw \<in> {''deprecated'', ''obsolete'', ''old''}"
  shows "re_search True outdated_re (pre @ tok @ ws @ kw @ rest)"
proof -
  have 1: "ws @ kw @ rest \<in> set (rmatch True comment_token (tok @ ws @ kw @ rest))"
    using assms(1) by (rule comment_token_mem)
  have 2: "kw @ rest \<in> set (rmatch True (Rep 0 py_isspace) (ws @ kw @ rest))"
    using assms(2) by (intro rmatch_Rep_mem) auto
  have 3: "rest \<in> set (rmatch True (Alt (Lit ''deprecated'') (Alt (Lit ''obsolete'') (Lit ''old''))) (kw @ rest))"
    using assms(3) by (rule outdated_kw_mem)
  have "rest \<in> set (rmatch True outdated_re (tok @ ws @ kw @ rest))"
    unfolding outdated_re_def by (intro rmatch_Seq_mem[OF 1] rmatch_Seq_mem[OF 2] 3)
  then have "rmatch True outdated_re (tok @ ws @ kw @ rest) \<noteq> []" by auto
  then show ?thesis by (rule re_search_append)
qed

lemma marker_kw_mem:
  assumes "m \<in> {''TODO'', ''FIXME'', ''XXX''}"
  shows "rest \<in> set (rmatch False (Alt (Lit ''TODO'') (Alt (Lit ''FIXME'') (Lit ''XXX''))) (m @ rest))"
  using assms by (auto simp: lit_eq_def)

lemma marker_shape:
  assumes "tok \<in> {''#'', ''//'', ''/*''}" "\<forall>c\<in>set ws. py_isspace c"
    "m \<in> {''TODO'', ''FIXME'', ''XXX''}"
  shows "re_search False marker_re (pre @ tok @ ws @ m @ rest)"
proof -
  have 1: "ws @ m @ rest \<in> set (rmatch False comment_token (tok @ ws @ m @ rest))"
    using assms(1) by (rule comment_token_mem)
  have 2: "m @ rest \<in> set (rmatch False (Rep 0 py_isspace) (ws @ m @ rest))"
    using assms(2) by (intro rmatch_Rep_mem) auto
  have 3: "rest \<in> set (rmatch False (Alt (Lit ''TODO'') (Alt (Lit ''FIXME'') (Lit ''XXX''))) (m @ rest))"
    using assms(3) by (rule marker_kw_mem)
  have "rest \<in> set (rmatch False marker_re (tok @ ws @ m @ rest))"
    unfolding marker_re_def by (intro rmatch_Seq_mem[OF 1] rmatch_Seq_mem[OF 2] 3)
  then have "rmatch False marker_re (tok @ ws @ m @ rest) \<noteq> []" by auto
  then show ?thesis by (rule re_search_append)
qed

lemma secret_key_mem:
  assumes "py_lower key \<in> {''api_key'', ''apikey'', ''password'', ''secret''}"
  shows "rest \<in> set (rmatch True
            (Alt (Lit ''api_key'') (Alt (Lit ''apikey'') (Alt (Lit ''password'') (Lit ''secret''))))
            (key @ rest))"
proof -
  from assms consider "py_lower key = ''api_key''" | "py_lower key = ''apikey''"
    | "py_lower key = ''password''" | "py_lower key = ''secret''"
    by auto
  then show ?thesis
  proof cases
    case 1
    then have "length key = length ''api_key''" by (metis py_lower_length)
    with 1 show ?thesis by (simp add: lit_eq_def py_lower_def py_lower_char_def)
  next
    case 2
    then have "length key = length ''apikey''" by (metis py_lower_length)
    with 2 show ?thesis by (simp add: lit_eq_def py_lower_def py_lower_char_def)
  next
    case 3
    then have "length key = length ''password''" by (metis py_lower_length)
    with 3 show ?thesis by (simp add: lit_eq_def py_lower_def py_lower_char_def)
  next
    case 4
    then have "length key = length ''secret''" by (metis py_lower_length)
    with 4 show ?thesis by (simp add: lit_eq_def py_lower_def py_lower_char_def)
  qed
qed

lemma opt_quote_mem:
  assumes "q = [] \<or> (\<exists>c. q = [c] \<and> is_quote c)"
  shows "rest \<in> set (rmatch ic (Opt (In is_quote)) (q @ rest))"
  using assms by auto

lemma secret_shape:
  assumes "py_lower key \<in> {''api_key'', ''apikey'', ''password'', ''secret''}"
    and "\<forall>c\<in>set ws. py_isspace c"
    and "is_sep sep"
    and "\<forall>c\<in>set ws'. py_isspace c"
    and "q = [] \<or> (\<exists>c. q = [c] \<and> is_quote c)"
    and "20 \<le> length tk"
    and "\<forall>c\<in>set tk. is_token_char c"
  shows "re_search True secret_re (pre @ key @ ws @ [sep] @ ws' @ q @ tk @ rest)"
proof -
  have 1: "ws @ [sep] @ ws' @ q @ tk @ rest \<in> set (rmatch True
            (Alt (Lit ''api_key'') (Alt (Lit ''apikey'') (Alt (Lit ''password'') (Lit ''secret''))))
            (key @ ws @ [sep] @ ws' @ q @ tk @ rest))"
    using assms(1) by (rule secret_key_mem)
  have 2: "[sep] @ ws' @ q @ tk @ rest \<in> set (rmatch True (Rep 0 py_isspace) (ws @ [sep] @ ws' @ q @ tk @ rest))"
    using assms(2) by (intro rmatch_Rep_mem) auto
  have 3: "ws' @ q @ tk @ rest \<in> set (rmatch True (In is_sep) ([sep] @ ws' @ q @ tk @ rest))"
    using assms(3) by simp
  have 4: "q @ tk @ rest \<in> set (rmatch True (Rep 0 py_isspace) (ws' @ q @ tk @ rest))"
    using assms(4) by (intro rmatch_Rep_mem) auto
  have 5: "tk @ rest \<in> set (rmatch True (Opt (In is_quote)) (q @ tk @ rest))"
    using assms(5) by (rule opt_quote_mem)
  have 6: "rest \<in> set (rmatch True (Rep 20 is_token_char) (tk @ rest))"
    using assms(6,7) by (intro rmatch_Rep_mem) auto
  have 7: "rest \<in> set (rmatch True (Opt (In is_quote)) rest)"
    by simp
  have "rest \<in> set (rmatch True secret_re (key @ ws @ [sep] @ ws' @ q @ tk @ rest))"
    unfolding secret_re_def
    by (intro rmatch_Seq_mem[OF 1] rmatch_Seq_mem[OF 2] rmatch_Seq_mem[OF 3]
        rmatch_Seq_mem[OF 4] rmatch_Seq_mem[OF 5] rmatch_Seq_mem[OF 6] 7)
  then have "rmatch True secret_re (key @ ws @ [sep] @ ws' @ q @ tk @ rest) \<noteq> []" by auto
  then show ?thesis by (rule re_search_append)
qed

section \<open>The two scanning loops, line by line\<close>

lemma comments_loop_step:
  "comments_loop i (l # ls) ws =
     comments_loop (Suc i) ls
       (ws @ (if re_search False marker_re l then [todo_warning i l] else []) @
             (if re_search True outdated_re l then [outdated_warning i l] else []))"
  by (simp add: Let_def)

lemma comments_loop_acc: "comments_loop i ls ws = ws @ comments_loop i ls []"
proof (induction ls arbitrary: i ws)
  case Nil
  show ?case by simp
next
  case (Cons l ls)
  show ?case
    unfolding comments_loop_step
    using Cons.IH[of "Suc i" "ws @ _"] Cons.IH[of "Suc i" "[] @ _"]
    by (metis append.assoc append_Nil)
qed

lemma comments_loop_line:
  "comments_loop i [line] [] =
     (if re_search False marker_re line then [todo_warning i line] else []) @
     (if re_search True outdated_re line then [outdated_warning i line] else [])"
  by (simp add: Let_def)

lemma comments_loop_Cons:
  "comments_loop i (l # ls) [] = comments_loop i [l] [] @ comments_loop (Suc i) ls []"
  unfolding comments_loop_line
  by (subst comments_loop_step, subst comments_loop_acc) simp

lemma comments_loop_append:
  "comments_loop i (xs @ ys) [] = comments_loop i xs [] @ comments_loop (i + length xs) ys []"
proof (induction xs arbitrary: i)
  case Nil
  show ?case by simp
next
  case (Cons x xs)
  have "comments_loop i ((x # xs) @ ys) [] = comments_loop i [x] [] @ comments_loop (Suc i) (xs @ ys) []"
    using comments_loop_Cons[of i x "xs @ ys"] by simp
  also have "\<dots> = comments_loop i [x] [] @ comments_loop (Suc i) xs [] @ comments_loop (Suc i + length xs) ys []"
    by (simp add: Cons.IH)
  also have "\<dots> = comments_loop i (x # xs) [] @ comments_loop (i + length (x # xs)) ys []"
    using comments_loop_Cons[of i x xs] by simp
  finally show ?case .
qed

lemma comments_loop_split:
  assumes "i < length ls"
  shows "comments_loop 0 ls [] =
           comments_loop 0 (take i ls) [] @ comments_loop i [ls ! i] [] @ comments_loop (Suc i) (drop (Suc i) ls) []"
proof -
  have ls: "ls = take i ls @ (ls ! i # drop (Suc i) ls)"
    using assms by (rule id_take_nth_drop)
  have len: "length (take i ls) = i" using assms by simp
  have "comments_loop 0 ls [] = comments_loop 0 (take i ls @ (ls ! i # drop (Suc i) ls)) []"
    using ls by simp
  also have "\<dots> = comments_loop 0 (take i ls) [] @ comments_loop i (ls ! i # drop (Suc i) ls) []"
    using comments_loop_append[of 0 "take i ls" "ls ! i # drop (Suc i) ls"] len by simp
  also have "\<dots> = comments_loop 0 (take i ls) [] @ comments_loop i [ls ! i] [] @ comments_loop (Suc i) (drop (Suc i) ls) []"
    using comments_loop_Cons[of i "ls ! i" "drop (Suc i) ls"] by simp
  finally show ?thesis .
qed

lemma analyze_comments_read:
  "read_text w filepath = Inr content \<Longrightarrow>
   analyze_comments w filepath = Inr (comments_loop 0 (file_lines content) [])"
  by (simp add: analyze_comments_def)

lemma analyze_comments_at:
  assumes "read_text w filepath = Inr content" and "i < length (file_lines content)"
  shows "analyze_comments w filepath =
           Inr (comments_loop 0 (take i (file_lines content)) [] @
                comments_loop i [file_lines content ! i] [] @
                comments_loop (Suc i) (drop (Suc i) (file_lines content)) [])"
  using analyze_comments_read[OF assms(1)] comments_loop_split[OF assms(2)] by simp

lemma warnings_differ: "todo_warning i line \<noteq> outdated_warning j line'"
  by (simp add: todo_warning_def outdated_warning_def)

lemma secrets_loop_step:
  "secrets_loop i (l # ls) acc =
     secrets_loop (Suc i) ls (acc @ (if re_search True secret_re l then [secret_warning i l] else []))"
  by simp

lemma secrets_loop_acc: "secrets_loop i ls acc = acc @ secrets_loop i ls []"
proof (induction ls arbitrary: i acc)
  case Nil
  show ?case by simp
next
  case (Cons l ls)
  show ?case
    unfolding secrets_loop_step
    using Cons.IH[of "Suc i" "acc @ _"] Cons.IH[of "Suc i" "[] @ _"]
    by (metis append.assoc append_Nil)
qed

lemma secrets_loop_line:
  "secrets_loop i [line] [] = (if re_search True secret_re line then [secret_warning i line] else [])"
  by simp

lemma secrets_loop_Cons:
  "secrets_loop i (l # ls) [] = secrets_loop i [l] [] @ secrets_loop (Suc i) ls []"
  unfolding secrets_loop_line
  by (subst secrets_loop_step, subst secrets_loop_acc) simp

lemma secrets_loop_append:
  "secrets_loop i (xs @ ys) [] = secrets_loop i xs [] @ secrets_loop (i + length xs) ys []"
proof (induction xs arbitrary: i)
  case Nil
  show ?case by simp
next
  case (Cons x xs)
  have "secrets_loop i ((x # xs) @ ys) [] = secrets_loop i [x] [] @ secrets_loop (Suc i) (xs @ ys) []"
    using secrets_loop_Cons[of i x "xs @ ys"] by simp
  also have "\<dots> = secrets_loop i [x] [] @ secrets_loop (Suc i) xs [] @ secrets_loop (Suc i + length xs) ys []"
    by (simp add: Cons.IH)
  also have "\<dots> = secrets_loop i (x # xs) [] @ secrets_loop (i + length (x # xs)) ys []"
    using secrets_loop_Cons[of i x xs] by simp
  finally show ?case .
qed

lemma secrets_loop_split:
  assumes "i < length ls"
  shows "secrets_loop 0 ls [] =
           secrets_loop 0 (take i ls) [] @ secrets_loop i [ls ! i] [] @ secrets_loop (Suc i) (drop (Suc i) ls) []"
proof -
  have ls: "ls = take i ls @ (ls ! i # drop (Suc i) ls)"
    using assms by (rule id_take_nth_drop)
  have len: "length (take i ls) = i" using assms by simp
  have "secrets_loop 0 ls [] = secrets_loop 0 (take i ls @ (ls ! i # drop (Suc i) ls)) []"
    using ls by simp
  also have "\<dots> = secrets_loop 0 (take i ls) [] @ secrets_loop i (ls ! i # drop (Suc i) ls) []"
    using secrets_loop_append[of 0 "take i ls" "ls ! i # drop (Suc i) ls"] len by simp
  also have "\<dots> = secrets_loop 0 (take i ls) [] @ secrets_loop i [ls ! i] [] @ secrets_loop (Suc i) (drop (Suc i) ls) []"
    using secrets_loop_Cons[of i "ls ! i" "drop (Suc i) ls"] by simp
  finally show ?thesis .
qed

lemma find_secrets_read:
  "read_text w filepath = Inr content \<Longrightarrow>
   find_secrets w filepath = Inr (secrets_loop 0 (file_lines content) [])"
  by (simp add: find_secrets_def)

lemma find_secrets_at:
  assumes "read_text w filepath = Inr content" and "i < length (file_lines content)"
  shows "find_secrets w filepath =
           Inr (secrets_loop 0 (take i (file_lines content)) [] @
                secrets_loop i [file_lines content ! i] [] @
                secrets_loop (Suc i) (drop (Suc i) (file_lines content)) [])"
  using find_secrets_read[OF assms(1)] secrets_loop_split[OF assms(2)] by simp

lemma comments_loop_heads:
  "x \<in> set (comments_loop i ls []) \<Longrightarrow> prefix ''Warning: Potential '' x"
proof (induction ls arbitrary: i)
  case Nil
  then show ?case by simp
next
  case (Cons l ls)
  from Cons.prems have "x \<in> set (comments_loop i [l] []) \<or> x \<in> set (comments_loop (Suc i) ls [])"
    by (subst (asm) comments_loop_Cons) simp
  then show ?case
  proof
    assume "x \<in> set (comments_loop i [l] [])"
    then have "x = todo_warning i l \<or> x = outdated_warning i l"
      unfolding comments_loop_line by (auto split: if_splits)
    then show ?thesis by (auto simp: todo_warning_def outdated_warning_def)
  next
    assume "x \<in> set (comments_loop (Suc i) ls [])"
    then show ?thesis by (rule Cons.IH)
  qed
qed

lemma secrets_loop_heads:
  "x \<in> set (secrets_loop i ls []) \<Longrightarrow> prefix ''Potential secret found on line '' x"
proof (induction ls arbitrary: i)
  case Nil
  then show ?case by simp
next
  case (Cons l ls)
  from Cons.prems have "x \<in> set (secrets_loop i [l] []) \<or> x \<in> set (secrets_loop (Suc i) ls [])"
    by (subst (asm) secrets_loop_Cons) simp
  then show ?case
  proof
    assume "x \<in> set (secrets_loop i [l] [])"
    then have "x = secret_warning i l"
      unfolding secrets_loop_line by (auto split: if_splits)
    then show ?thesis by (simp add: secret_warning_def)
  next
    assume "x \<in> set (secrets_loop (Suc i) ls [])"
    then show ?thesis by (rule Cons.IH)
  qed
qed

section \<open>File type detection and the outcomes of the analysis\<close>

lemma prefix_clash: "prefix (a # as) x \<Longrightarrow> prefix (b # bs) x \<Longrightarrow> a = b"
  by (auto simp: prefix_def)

lemma prefix_Error: "prefix (''Error'' @ t) x \<Longrightarrow> prefix ''Error'' x"
  by (auto simp: prefix_def)

lemma read_failure_heads: "x \<in> set (read_failure e) \<Longrightarrow> prefix ''Error'' x"
  by (cases e) auto






lemma analyze_file_content_returns: "\<exists>ws. analyze_file_content w filepath filetype = Inr ws"
  by (simp add: analyze_file_content_def split: sum.splits)


lemma analyze_comments_returns: "\<exists>ws. analyze_comments w filepath = Inr ws"
  by (simp add: analyze_comments_def split: sum.splits)



lemma yaml_rules_acc: "yaml_rules data ws = ws @ yaml_rules data []"
  by (simp add: yaml_rules_def split: pyval.splits option.splits)

lemma json_rules_acc: "json_rules data ws = ws @ json_rules data []"
  by (simp add: json_rules_def split: pyval.splits option.splits)

lemma yaml_rules_dict:
  "yaml_rules (PDict kvs) [] =
     (if map_of kvs (PStr ''api_version'') = Some (PStr ''v1'')
      then [''Warning: api_version is v1, consider upgrading to a newer version.''] else [])"
  by (simp add: yaml_rules_def split: option.splits)

lemma json_rules_dict:
  "json_rules (PDict kvs) [] =
     (if map_of kvs (PStr ''debug'') = Some (PBool True)
      then [''Warning: Debug mode is enabled. Disable in production.''] else [])"
  by (simp add: json_rules_def split: option.splits)

lemma yaml_rules_heads:
  "x \<in> set (yaml_rules data []) \<Longrightarrow>
   x = ''Warning: api_version is v1, consider upgrading to a newer version.''"
  by (auto simp: yaml_rules_def split: pyval.splits option.splits if_splits)

lemma json_rules_heads:
  "x \<in> set (json_rules data []) \<Longrightarrow>
   x = ''Warning: Debug mode is enabled. Disable in production.''"
  by (auto simp: json_rules_def split: pyval.splits option.splits if_splits)

lemma yamllint_check_heads:
  "yamllint_check w filepath [] = Inr lint \<Longrightarrow> x \<in> set lint \<Longrightarrow> prefix ''yamllint '' x"
  by (auto simp: yamllint_check_def split: sum.splits exn.splits if_splits)

lemma jsonlint_check_heads:
  "jsonlint_check w filepath [] = Inr lint \<Longrightarrow> x \<in> set lint \<Longrightarrow> prefix ''jsonlint '' x"
  by (auto simp: jsonlint_check_def split: sum.splits exn.splits if_splits)

lemma analyze_yaml_parsed:
  "yaml_safe_load w content = Inr data \<Longrightarrow> yamllint_check w filepath [] = Inr lint \<Longrightarrow>
   analyze_yaml w filepath content [] = Inr (lint @ yaml_rules data [])"
  by (simp add: analyze_yaml_def yaml_rules_acc[of data lint])

lemma analyze_json_parsed:
  "json_loads w content = Inr data \<Longrightarrow> jsonlint_check w filepath [] = Inr lint \<Longrightarrow>
   analyze_json w filepath content [] = Inr (lint @ json_rules data [])"
  by (simp add: analyze_json_def json_rules_acc[of data lint])



lemma analyze_yaml_heads:
  assumes "analyze_yaml w filepath content [] = Inr ws" and "x \<in> set ws"
  shows "prefix ''yamllint '' x \<or> prefix ''Error parsing YAML: '' x
         \<or> x = ''Warning: api_version is v1, consider upgrading to a newer version.''"
proof (cases "yaml_safe_load w content")
  case (Inl e)
  with assms show ?thesis
    by (cases e) (auto simp: analyze_yaml_def)
next
  case (Inr data)
  show ?thesis
  proof (cases "yamllint_check w filepath []")
    case (Inl e)
    with Inr assms show ?thesis by (cases e) (auto simp: analyze_yaml_def)
  next
    case lint: (Inr lint)
    with Inr assms have "x \<in> set lint \<or> x \<in> set (yaml_rules data [])"
      by (auto simp: analyze_yaml_parsed)
    then show ?thesis
      using yamllint_check_heads[OF lint] yaml_rules_heads by blast
  qed
qed

lemma analyze_json_heads:
  assumes "analyze_json w filepath content [] = Inr ws" and "x \<in> set ws"
  shows "prefix ''jsonlint '' x \<or> prefix ''Error parsing JSON: '' x
         \<or> x = ''Warning: Debug mode is enabled. Disable in production.''"
proof (cases "json_loads w content")
  case (Inl e)
  with assms show ?thesis
    by (cases e) (auto simp: analyze_json_def)
next
  case (Inr data)
  show ?thesis
  proof (cases "jsonlint_check w filepath []")
    case (Inl e)
    with Inr assms show ?thesis by (cases e) (auto simp: analyze_json_def)
  next
    case lint: (Inr lint)
    with Inr assms have "x \<in> set lint \<or> x \<in> set (json_rules data [])"
      by (auto simp: analyze_json_parsed)
    then show ?thesis
      using jsonlint_check_heads[OF lint] json_rules_heads by blast
  qed
qed

lemma analyze_typed_heads:
  assumes "analyze_typed w filepath content filetype = Inr ws" and "x \<in> set ws"
  shows "prefix ''yamllint '' x \<or> prefix ''jsonlint '' x \<or> prefix ''Error'' x
         \<or> x = ''Warning: api_version is v1, consider upgrading to a newer version.''
         \<or> x = ''Warning: Debug mode is enabled. Disable in production.''"
proof -
  consider "filetype = ''yaml''" | "filetype \<noteq> ''yaml''" "filetype = ''json''"
    | "filetype \<noteq> ''yaml''" "filetype \<noteq> ''json''" by blast
  then show ?thesis
  proof cases
    case 1
    with assms have "analyze_yaml w filepath content [] = Inr ws" by (simp add: analyze_typed_def)
    from analyze_yaml_heads[OF this assms(2)] show ?thesis
      using prefix_Error[of "'' parsing YAML: ''" x] by auto
  next
    case 2
    with assms have "analyze_json w filepath content [] = Inr ws" by (simp add: analyze_typed_def)
    from analyze_json_heads[OF this assms(2)] show ?thesis
      using prefix_Error[of "'' parsing JSON: ''" x] by auto
  next
    case 3
    with assms have "x = ''Error: Invalid filetype specified.''" by (auto simp: analyze_typed_def)
    then show ?thesis by simp
  qed
qed

lemma typed_finding_not_scan:
  assumes "prefix ''yamllint '' x \<or> prefix ''jsonlint '' x \<or> prefix ''Error'' x
         \<or> x = ''Warning: api_version is v1, consider upgrading to a newer version.''
         \<or> x = ''Warning: Debug mode is enabled. Disable in production.''"
  shows "\<not> prefix ''Warning: Potential '' x \<and> \<not> prefix ''Potential secret found on line '' x"
proof -
  from assms consider "prefix ''yamllint '' x" | "prefix ''jsonlint '' x" | "prefix ''Error'' x"
    | "x = ''Warning: api_version is v1, consider upgrading to a newer version.''"
    | "x = ''Warning: Debug mode is enabled. Disable in production.''" by blast
  then show ?thesis
  proof cases
    case 1
    then show ?thesis
      using prefix_clash[of "CHR ''y''" _ x "CHR ''W''"] prefix_clash[of "CHR ''y''" _ x "CHR ''P''"]
      by fastforce
  next
    case 2
    then show ?thesis
      using prefix_clash[of "CHR ''j''" _ x "CHR ''W''"] prefix_clash[of "CHR ''j''" _ x "CHR ''P''"]
      by fastforce
  next
    case 3
    then show ?thesis
      using prefix_clash[of "CHR ''E''" _ x "CHR ''W''"] prefix_clash[of "CHR ''E''" _ x "CHR ''P''"]
      by fastforce
  next
    case 4
    then show ?thesis by simp
  next
    case 5
    then show ?thesis by simp
  qed
qed

lemma analyze_file_content_typed:
  assumes "filetype \<noteq> ''auto'' \<and> t = filetype \<or> filetype = ''auto'' \<and> detect_filetype filepath = Some t"
  shows "analyze_file_content w filepath filetype =
           (case read_text w filepath of
              Inl e \<Rightarrow> Inr (read_failure e)
            | Inr content \<Rightarrow>
                (case analyze_typed w filepath content t of
                   Inl e \<Rightarrow> Inr (read_failure e)
                 | Inr ws \<Rightarrow> Inr ws))"
  using assms
  by (auto simp: analyze_file_content_def analyze_file_content_try_def split: sum.splits)

lemma analyze_file_content_unknown:
  assumes "detect_filetype filepath = None"
  shows "analyze_file_content w filepath ''auto'' = analyze_comments w filepath"
  using assms
  by (auto simp: analyze_file_content_def analyze_file_content_try_def analyze_comments_def
      split: sum.splits)

lemma analyze_file_content_typed_heads:
  assumes "filetype \<noteq> ''auto'' \<and> t = filetype \<or> filetype = ''auto'' \<and> detect_filetype filepath = Some t"
    and "analyze_file_content w filepath filetype = Inr ws" and "x \<in> set ws"
  shows "prefix ''yamllint '' x \<or> prefix ''jsonlint '' x \<or> prefix ''Error'' x
         \<or> x = ''Warning: api_version is v1, consider upgrading to a newer version.''
         \<or> x = ''Warning: Debug mode is enabled. Disable in production.''"
proof (cases "read_text w filepath")
  case (Inl e)
  with assms have "x \<in> set (read_failure e)" by (auto simp: analyze_file_content_typed[OF assms(1)])
  then have "prefix ''Error'' x" by (rule read_failure_heads)
  then show ?thesis by simp
next
  case (Inr content)
  show ?thesis
  proof (cases "analyze_typed w filepath content t")
    case (Inl e)
    with Inr assms have "x \<in> set (read_failure e)" by (auto simp: analyze_file_content_typed[OF assms(1)])
    then have "prefix ''Error'' x" by (rule read_failure_heads)
    then show ?thesis by simp
  next
    case r: (Inr ws')
    with Inr assms have "ws' = ws" by (auto simp: analyze_file_content_typed[OF assms(1)])
    with r assms(3) show ?thesis using analyze_typed_heads by blast
  qed
qed

lemma analyze_file_content_no_secret:
  assumes "analyze_file_content w filepath filetype = Inr ws" and "x \<in> set ws"
  shows "\<not> prefix ''Potential secret found on line '' x"
proof (cases "filetype = ''auto'' \<and> detect_filetype filepath = None")
  case True
  with assms have a: "analyze_comments w filepath = Inr ws"
    by (simp add: analyze_file_content_unknown)
  show ?thesis
  proof (cases "read_text w filepath")
    case (Inl e)
    with a assms(2) have "x \<in> set (read_failure e)" by (auto simp: analyze_comments_def)
    then have "prefix ''Error'' x" by (rule read_failure_heads)
    then show ?thesis using prefix_clash[of "CHR ''E''" _ x "CHR ''P''"] by fastforce
  next
    case (Inr content)
    with a assms(2) have "x \<in> set (comments_loop 0 (file_lines content) [])"
      by (auto simp: analyze_comments_def)
    then have "prefix ''Warning: Potential '' x" by (rule comments_loop_heads)
    then show ?thesis using prefix_clash[of "CHR ''W''" _ x "CHR ''P''"] by fastforce
  qed
next
  case False
  then obtain t where "filetype \<noteq> ''auto'' \<and> t = filetype \<or> filetype = ''auto'' \<and> detect_filetype filepath = Some t"
    by (cases "detect_filetype filepath") auto
  from analyze_file_content_typed_heads[OF this assms] show ?thesis
    using typed_finding_not_scan by blast
qed

lemma analyze_file_content_yaml:
  assumes "read_text w filepath = Inr content"
    and "filetype = ''yaml'' \<or> filetype = ''auto'' \<and> detect_filetype filepath = Some ''yaml''"
    and "analyze_yaml w filepath content [] = Inr ws"
  shows "analyze_file_content w filepath filetype = Inr ws"
proof -
  have "filetype \<noteq> ''auto'' \<and> ''yaml'' = filetype \<or> filetype = ''auto'' \<and> detect_filetype filepath = Some ''yaml''"
    using assms(2) by auto
  from analyze_file_content_typed[OF this] assms(1,3) show ?thesis
    by (simp add: analyze_typed_def)
qed

lemma analyze_file_content_json:
  assumes "read_text w filepath = Inr content"
    and "filetype = ''json'' \<or> filetype = ''auto'' \<and> detect_filetype filepath = Some ''json''"
    and "analyze_json w filepath content [] = Inr ws"
  shows "analyze_file_content w filepath filetype = Inr ws"
proof -
  have "filetype \<noteq> ''auto'' \<and> ''json'' = filetype \<or> filetype = ''auto'' \<and> detect_filetype filepath = Some ''json''"
    using assms(2) by auto
  from analyze_file_content_typed[OF this] assms(1,3) show ?thesis
    by (simp add: analyze_typed_def)
qed

lemma analysis_results_append:
  "analyze_file_content w (arg_filepath a) (arg_filetype a) = Inr results \<Longrightarrow>
   find_secrets w (arg_filepath a) = Inr secrets \<Longrightarrow>
   analysis_results a w = Inr (results @ (if arg_find_secrets a then secrets else []))"
  by (simp add: analysis_results_def)


lemma yamllint_check_returned:
  assumes "subprocess_run w [''yamllint'', filepath] = Inl FileNotFoundError \<or>
           (\<exists>r. subprocess_run w [''yamllint'', filepath] = Inr r)"
  shows "\<exists>lint. yamllint_check w filepath [] = Inr lint"
  using assms by (auto simp: yamllint_check_def)

lemma jsonlint_check_returned:
  assumes "subprocess_run w [''jsonlint'', filepath] = Inl FileNotFoundError \<or>
           (\<exists>r. subprocess_run w [''jsonlint'', filepath] = Inr r)"
  shows "\<exists>lint. jsonlint_check w filepath [] = Inr lint"
  using assms by (auto simp: jsonlint_check_def)



lemma yamllint_check_raises:
  "subprocess_run w [''yamllint'', filepath] = Inl e \<Longrightarrow> e \<noteq> FileNotFoundError \<Longrightarrow>
   yamllint_check w filepath [] = Inl e"
  by (cases e) (simp_all add: yamllint_check_def)

lemma jsonlint_check_raises:
  "subprocess_run w [''jsonlint'', filepath] = Inl e \<Longrightarrow> e \<noteq> FileNotFoundError \<Longrightarrow>
   jsonlint_check w filepath [] = Inl e"
  by (cases e) (simp_all add: jsonlint_check_def)

lemma analyze_yaml_linter_raises:
  assumes "yaml_safe_load w content = Inr data"
    and "subprocess_run w [''yamllint'', filepath] = Inl e"
    and "e \<noteq> FileNotFoundError" and "\<forall>m. e \<noteq> YAMLError m"
  shows "analyze_yaml w filepath content [] = Inl e"
  using assms(1,4) yamllint_check_raises[OF assms(2,3)]
  by (cases e) (simp_all add: analyze_yaml_def)

lemma analyze_json_linter_raises:
  assumes "json_loads w content = Inr data"
    and "subprocess_run w [''jsonlint'', filepath] = Inl e"
    and "e \<noteq> FileNotFoundError" and "\<forall>m. e \<noteq> JSONDecodeError m"
  shows "analyze_json w filepath content [] = Inl e"
  using assms(1,4) jsonlint_check_raises[OF assms(2,3)]
  by (cases e) (simp_all add: analyze_json_def)

lemma analyze_file_content_yaml_raises:
  assumes "read_text w filepath = Inr content"
    and "filetype = ''yaml'' \<or> filetype = ''auto'' \<and> detect_filetype filepath = Some ''yaml''"
    and "analyze_yaml w filepath content [] = Inl e"
  shows "analyze_file_content w filepath filetype = Inr (read_failure e)"
proof -
  have "filetype \<noteq> ''auto'' \<and> ''yaml'' = filetype \<or> filetype = ''auto'' \<and> detect_filetype filepath = Some ''yaml''"
    using assms(2) by auto
  from analyze_file_content_typed[OF this] assms(1,3) show ?thesis
    by (simp add: analyze_typed_def)
qed

lemma analyze_file_content_json_raises:
  assumes "read_text w filepath = Inr content"
    and "filetype = ''json'' \<or> filetype = ''auto'' \<and> detect_filetype filepath = Some ''json''"
    and "analyze_json w filepath content [] = Inl e"
  shows "analyze_file_content w filepath filetype = Inr (read_failure e)"
proof -
  have "filetype \<noteq> ''auto'' \<and> ''json'' = filetype \<or> filetype = ''auto'' \<and> detect_filetype filepath = Some ''json''"
    using assms(2) by auto
  from analyze_file_content_typed[OF this] assms(1,3) show ?thesis
    by (simp add: analyze_typed_def)
qed

lemma read_failure_other: "e \<noteq> FileNotFoundError \<Longrightarrow> read_failure e = [''Error: Failed to read file.'']"
  by (cases e) simp_all



section \<open>Claims\<close>

subsection \<open>The comment scan and the typed analysis\<close>

text \<open>
  Claim C1, as amended. When the file type resolves to yaml or json (declared, or detected from
  the suffix), \<open>analyze_file_content\<close> does not run the comment scan: its result holds no
  comment-scan warning (every such warning starts with \<open>Warning: Potential\<close>), only linter and
  rule findings, a parse error or a read failure. The comment scan runs when the declared
  type is \<open>auto\<close> and the suffix is not recognised, and its output is then the whole result.
\<close>

theorem typed_analysis_skips_comment_scan:
  "((filetype = ''yaml'' \<or> filetype = ''json'' \<or>
       filetype = ''auto'' \<and> detect_filetype filepath \<noteq> None) \<longrightarrow>
      (\<exists>ws. analyze_file_content w filepath filetype = Inr ws
            \<and> (\<forall>x\<in>set ws. \<not> prefix ''Warning: Potential '' x)))
   \<and> (detect_filetype filepath = None \<longrightarrow>
        analyze_file_content w filepath ''auto'' = analyze_comments w filepath)
   \<and> (\<forall>x\<in>set (comments_loop i ls []). prefix ''Warning: Potential '' x)"
proof (intro conjI impI ballI)
  assume r: "filetype = ''yaml'' \<or> filetype = ''json'' \<or>
       filetype = ''auto'' \<and> detect_filetype filepath \<noteq> None"
  then obtain t where t: "filetype \<noteq> ''auto'' \<and> t = filetype \<or>
      filetype = ''auto'' \<and> detect_filetype filepath = Some t"
    by (cases "detect_filetype filepath") auto
  obtain ws where ws: "analyze_file_content w filepath filetype = Inr ws"
    using analyze_file_content_returns by blast
  have "\<forall>x\<in>set ws. \<not> prefix ''Warning: Potential '' x"
    using analyze_file_content_typed_heads[OF t ws] typed_finding_not_scan by blast
  with ws show "\<exists>ws. analyze_file_content w filepath filetype = Inr ws
            \<and> (\<forall>x\<in>set ws. \<not> prefix ''Warning: Potential '' x)" by blast
next
  assume "detect_filetype filepath = None"
  then show "analyze_file_content w filepath ''auto'' = analyze_comments w filepath"
    by (rule analyze_file_content_unknown)
next
  fix x assume "x \<in> set (comments_loop i ls [])"
  then show "prefix ''Warning: Potential '' x" by (rule comments_loop_heads)
qed

theorem typed_analysis_skips_comment_scan_witness:
  "(\<exists>ws. analyze_file_content
           (fixed_world True (Inr (''# TODO pin the version'' @ [LF] @ ''api_version: v1'' @ [LF]))
              (Inr (PDict [(PStr ''api_version'', PStr ''v1'')])) (Inl FileNotFoundError))
           ''conf.yaml'' ''auto'' = Inr ws
         \<and> (\<forall>x\<in>set ws. \<not> prefix ''Warning: Potential '' x))
   \<and> analyze_file_content
        (fixed_world True (Inr (''# TODO pin the version'' @ [LF])) (Inr PNone) (Inl FileNotFoundError))
        ''notes.txt'' ''auto'' =
      analyze_comments
        (fixed_world True (Inr (''# TODO pin the version'' @ [LF])) (Inr PNone) (Inl FileNotFoundError))
        ''notes.txt''"
proof -
  have 1: "''auto'' = ''yaml'' \<or> ''auto'' = ''json'' \<or>
       ''auto'' = ''auto'' \<and> detect_filetype ''conf.yaml'' \<noteq> None" by code_simp
  have 2: "detect_filetype ''notes.txt'' = None" by code_simp
  show ?thesis
    using typed_analysis_skips_comment_scan[where filetype = "''auto''" and filepath = "''conf.yaml''"] 1
      typed_analysis_skips_comment_scan[where filepath = "''notes.txt''"] 2
    by blast
qed

text \<open>
  The claim as written fails on a YAML file with a marker line: the scan alone reports line 1,
  the analysis of the file reports nothing.
\<close>

theorem comment_scan_on_yaml_counterexample:
  "analyze_comments
     (fixed_world True (Inr (''# TODO set the port'' @ [LF] @ ''port: 80'' @ [LF]))
        (Inr (PDict [(PStr ''port'', PInt 80)])) (Inl FileNotFoundError))
     ''conf.yaml'' =
     Inr [''Warning: Potential TODO/FIXME/XXX found on line 1: # TODO set the port'']
   \<and> analyze_file_content
     (fixed_world True (Inr (''# TODO set the port'' @ [LF] @ ''port: 80'' @ [LF]))
        (Inr (PDict [(PStr ''port'', PInt 80)])) (Inl FileNotFoundError))
     ''conf.yaml'' ''auto'' = Inr []"
  by code_simp


subsection \<open>Marker comments\<close>

text \<open>
  Claim C2, as amended. On a line that holds a comment token (\<open>#\<close>, \<open>//\<close> or \<open>/*\<close>), then optional
  whitespace, then directly \<open>TODO\<close>, \<open>FIXME\<close> or \<open>XXX\<close>, the comment scan produces the marker
  warning exactly once; its message holds the 1-based line number and the trimmed line. The
  same line gets a second comment-scan warning, the outdated-comment one, exactly when the
  staleness pattern matches it too.
\<close>

theorem marker_line_warning:
  assumes "read_text w filepath = Inr content"
    and "i < length (file_lines content)"
    and "file_lines content ! i = pre @ tok @ ws @ m @ rest"
    and "tok \<in> {''#'', ''//'', ''/*''}"
    and "\<forall>c\<in>set ws. py_isspace c"
    and "m \<in> {''TODO'', ''FIXME'', ''XXX''}"
  shows "comments_loop i [file_lines content ! i] [] =
           todo_warning i (file_lines content ! i) #
           (if re_search True outdated_re (file_lines content ! i)
            then [outdated_warning i (file_lines content ! i)] else [])
         \<and> analyze_comments w filepath =
           Inr (comments_loop 0 (take i (file_lines content)) [] @
                comments_loop i [file_lines content ! i] [] @
                comments_loop (Suc i) (drop (Suc i) (file_lines content)) [])
         \<and> count_list (comments_loop i [file_lines content ! i] [])
              (todo_warning i (file_lines content ! i)) = 1"
proof -
  have hit: "re_search False marker_re (file_lines content ! i)"
    using assms(3-6) by (simp add: marker_shape)
  then have line: "comments_loop i [file_lines content ! i] [] =
           todo_warning i (file_lines content ! i) #
           (if re_search True outdated_re (file_lines content ! i)
            then [outdated_warning i (file_lines content ! i)] else [])"
    by (simp add: comments_loop_line)
  have "count_list (comments_loop i [file_lines content ! i] [])
              (todo_warning i (file_lines content ! i)) = 1"
    unfolding line using warnings_differ[of i "file_lines content ! i" i "file_lines content ! i"]
    by auto
  with line analyze_comments_at[OF assms(1,2)] show ?thesis by blast
qed

theorem marker_line_warning_witness:
  "analyze_comments
     (fixed_world True (Inr (''a: 1'' @ [LF] @ ''x = 2  //FIXME later'' @ [LF])) (Inr PNone)
        (Inl FileNotFoundError)) ''notes.txt'' =
   Inr [''Warning: Potential TODO/FIXME/XXX found on line 2: x = 2  //FIXME later'']"
proof -
  let ?c = "''a: 1'' @ [LF] @ ''x = 2  //FIXME later'' @ [LF]"
  let ?w = "fixed_world True (Inr ?c) (Inr PNone) (Inl FileNotFoundError)"
  have 1: "read_text ?w ''notes.txt'' = Inr ?c" by (simp add: fixed_world_def)
  have 2: "1 < length (file_lines ?c)" by code_simp
  have 3: "file_lines ?c ! 1 = ''x = 2  '' @ ''//'' @ [] @ ''FIXME'' @ '' later'' @ [LF]" by code_simp
  have 4: "''//'' \<in> {''#'', ''//'', ''/*''}" by simp
  have 5: "\<forall>c\<in>set []. py_isspace c" by simp
  have 6: "''FIXME'' \<in> {''TODO'', ''FIXME'', ''XXX''}" by simp
  have b: "comments_loop 0 (take 1 (file_lines ?c)) [] = []" by code_simp
  have l: "comments_loop 1 [file_lines ?c ! 1] [] =
      [''Warning: Potential TODO/FIXME/XXX found on line 2: x = 2  //FIXME later'']" by code_simp
  have a: "comments_loop (Suc 1) (drop (Suc 1) (file_lines ?c)) [] = []" by code_simp
  have "analyze_comments ?w ''notes.txt'' =
          Inr (comments_loop 0 (take 1 (file_lines ?c)) [] @ comments_loop 1 [file_lines ?c ! 1] [] @
               comments_loop (Suc 1) (drop (Suc 1) (file_lines ?c)) [])"
    using marker_line_warning[OF 1 2 3 4 5 6] by (rule conjunct1[OF conjunct2])
  then show ?thesis unfolding b l a by simp
qed

text \<open>
  The claim as written (exactly one comment-scan warning for such a line) fails on a line that the
  staleness pattern matches as well: both warnings belong to the comment scan, and both hold
  the line number and the trimmed text.
\<close>

theorem marker_single_warning_counterexample:
  "analyze_comments (fixed_world True (Inr ''# TODO # old'') (Inr PNone) (Inl FileNotFoundError))
     ''notes.txt'' =
   Inr [''Warning: Potential TODO/FIXME/XXX found on line 1: # TODO # old'',
        ''Warning: Potential outdated comment found on line 1: # TODO # old'']"
  by code_simp

subsection \<open>The two rules on a parsed document\<close>

text \<open>
  Claim C3, as amended. For a parsed document whose top level is a mapping, when the linter
  call returns or the linter is not installed, the result is the linter's items followed by the
  rule warning, present exactly when \<open>api_version\<close> is bound to the string \<open>v1\<close> (YAML) or
  \<open>debug\<close> to \<open>True\<close> (JSON); any other value and an absent key add nothing and raise nothing.
  When the linter call raises another exception, the result is the single read-failure message.
\<close>

theorem rule_engine_findings:
  assumes "read_text w filepath = Inr content"
  shows "(yaml_safe_load w content = Inr (PDict kvs) \<and>
          (filetype = ''yaml'' \<or> filetype = ''auto'' \<and> detect_filetype filepath = Some ''yaml'') \<and>
          (subprocess_run w [''yamllint'', filepath] = Inl FileNotFoundError \<or>
           (\<exists>r. subprocess_run w [''yamllint'', filepath] = Inr r)) \<longrightarrow>
          (\<exists>lint. (\<forall>x\<in>set lint. prefix ''yamllint '' x) \<and>
             analyze_file_content w filepath filetype =
               Inr (lint @ (if map_of kvs (PStr ''api_version'') = Some (PStr ''v1'')
                            then [''Warning: api_version is v1, consider upgrading to a newer version.'']
                            else []))))
       \<and> (json_loads w content = Inr (PDict kvs) \<and>
          (filetype = ''json'' \<or> filetype = ''auto'' \<and> detect_filetype filepath = Some ''json'') \<and>
          (subprocess_run w [''jsonlint'', filepath] = Inl FileNotFoundError \<or>
           (\<exists>r. subprocess_run w [''jsonlint'', filepath] = Inr r)) \<longrightarrow>
          (\<exists>lint. (\<forall>x\<in>set lint. prefix ''jsonlint '' x) \<and>
             analyze_file_content w filepath filetype =
               Inr (lint @ (if map_of kvs (PStr ''debug'') = Some (PBool True)
                            then [''Warning: Debug mode is enabled. Disable in production.'']
                            else []))))
       \<and> (yaml_safe_load w content = Inr (PDict kvs) \<and>
          (filetype = ''yaml'' \<or> filetype = ''auto'' \<and> detect_filetype filepath = Some ''yaml'') \<and>
          subprocess_run w [''yamllint'', filepath] = Inl e \<and>
          e \<noteq> FileNotFoundError \<and> (\<forall>m. e \<noteq> YAMLError m) \<longrightarrow>
          analyze_file_content w filepath filetype = Inr [''Error: Failed to read file.''])
       \<and> (json_loads w content = Inr (PDict kvs) \<and>
          (filetype = ''json'' \<or> filetype = ''auto'' \<and> detect_filetype filepath = Some ''json'') \<and>
          subprocess_run w [''jsonlint'', filepath] = Inl e \<and>
          e \<noteq> FileNotFoundError \<and> (\<forall>m. e \<noteq> JSONDecodeError m) \<longrightarrow>
          analyze_file_content w filepath filetype = Inr [''Error: Failed to read file.''])"
proof (intro conjI impI)
  assume h: "yaml_safe_load w content = Inr (PDict kvs) \<and>
          (filetype = ''yaml'' \<or> filetype = ''auto'' \<and> detect_filetype filepath = Some ''yaml'') \<and>
          (subprocess_run w [''yamllint'', filepath] = Inl FileNotFoundError \<or>
           (\<exists>r. subprocess_run w [''yamllint'', filepath] = Inr r))"
  then obtain lint where lint: "yamllint_check w filepath [] = Inr lint"
    using yamllint_check_returned by blast
  have heads: "\<forall>x\<in>set lint. prefix ''yamllint '' x"
    using yamllint_check_heads[OF lint] by blast
  from h lint have "analyze_yaml w filepath content [] = Inr (lint @ yaml_rules (PDict kvs) [])"
    by (simp add: analyze_yaml_parsed)
  with h have "analyze_file_content w filepath filetype = Inr (lint @ yaml_rules (PDict kvs) [])"
    using analyze_file_content_yaml[OF assms] by blast
  then have "analyze_file_content w filepath filetype =
               Inr (lint @ (if map_of kvs (PStr ''api_version'') = Some (PStr ''v1'')
                            then [''Warning: api_version is v1, consider upgrading to a newer version.'']
                            else []))"
    unfolding yaml_rules_dict .
  with heads show "\<exists>lint. (\<forall>x\<in>set lint. prefix ''yamllint '' x) \<and>
             analyze_file_content w filepath filetype =
               Inr (lint @ (if map_of kvs (PStr ''api_version'') = Some (PStr ''v1'')
                            then [''Warning: api_version is v1, consider upgrading to a newer version.'']
                            else []))"
    by blast
next
  assume h: "json_loads w content = Inr (PDict kvs) \<and>
          (filetype = ''json'' \<or> filetype = ''auto'' \<and> detect_filetype filepath = Some ''json'') \<and>
          (subprocess_run w [''jsonlint'', filepath] = Inl FileNotFoundError \<or>
           (\<exists>r. subprocess_run w [''jsonlint'', filepath] = Inr r))"
  then obtain lint where lint: "jsonlint_check w filepath [] = Inr lint"
    using jsonlint_check_returned by blast
  have heads: "\<forall>x\<in>set lint. prefix ''jsonlint '' x"
    using jsonlint_check_heads[OF lint] by blast
  from h lint have "analyze_json w filepath content [] = Inr (lint @ json_rules (PDict kvs) [])"
    by (simp add: analyze_json_parsed)
  with h have "analyze_file_content w filepath filetype = Inr (lint @ json_rules (PDict kvs) [])"
    using analyze_file_content_json[OF assms] by blast
  then have "analyze_file_content w filepath filetype =
               Inr (lint @ (if map_of kvs (PStr ''debug'') = Some (PBool True)
                            then [''Warning: Debug mode is enabled. Disable in production.'']
                            else []))"
    unfolding json_rules_dict .
  with heads show "\<exists>lint. (\<forall>x\<in>set lint. prefix ''jsonlint '' x) \<and>
             analyze_file_content w filepath filetype =
               Inr (lint @ (if map_of kvs (PStr ''debug'') = Some (PBool True)
                            then [''Warning: Debug mode is enabled. Disable in production.'']
                            else []))"
    by blast
next
  assume h: "yaml_safe_load w content = Inr (PDict kvs) \<and>
          (filetype = ''yaml'' \<or> filetype = ''auto'' \<and> detect_filetype filepath = Some ''yaml'') \<and>
          subprocess_run w [''yamllint'', filepath] = Inl e \<and>
          e \<noteq> FileNotFoundError \<and> (\<forall>m. e \<noteq> YAMLError m)"
  then have "analyze_yaml w filepath content [] = Inl e"
    using analyze_yaml_linter_raises by blast
  with h have "analyze_file_content w filepath filetype = Inr (read_failure e)"
    using analyze_file_content_yaml_raises[OF assms] by blast
  with h show "analyze_file_content w filepath filetype = Inr [''Error: Failed to read file.'']"
    by (simp add: read_failure_other)
next
  assume h: "json_loads w content = Inr (PDict kvs) \<and>
          (filetype = ''json'' \<or> filetype = ''auto'' \<and> detect_filetype filepath = Some ''json'') \<and>
          subprocess_run w [''jsonlint'', filepath] = Inl e \<and>
          e \<noteq> FileNotFoundError \<and> (\<forall>m. e \<noteq> JSONDecodeError m)"
  then have "analyze_json w filepath content [] = Inl e"
    using analyze_json_linter_raises by blast
  with h have "analyze_file_content w filepath filetype = Inr (read_failure e)"
    using analyze_file_content_json_raises[OF assms] by blast
  with h show "analyze_file_content w filepath filetype = Inr [''Error: Failed to read file.'']"
    by (simp add: read_failure_other)
qed

theorem rule_engine_findings_witness:
  "(\<exists>lint. (\<forall>x\<in>set lint. prefix ''yamllint '' x) \<and>
      analyze_file_content
        (fixed_world True (Inr ''api_version: v1'') (Inr (PDict [(PStr ''api_version'', PStr ''v1'')]))
           (Inl FileNotFoundError)) ''app.yaml'' ''auto'' =
        Inr (lint @ [''Warning: api_version is v1, consider upgrading to a newer version.'']))
   \<and> (\<exists>lint. (\<forall>x\<in>set lint. prefix ''yamllint '' x) \<and>
      analyze_file_content
        (fixed_world True (Inr ''api_version: v2'') (Inr (PDict [(PStr ''api_version'', PStr ''v2'')]))
           (Inr \<lparr>returncode = 0, stdout = [], stderr = []\<rparr>)) ''app.yaml'' ''yaml'' = Inr (lint @ []))
   \<and> (\<exists>lint. (\<forall>x\<in>set lint. prefix ''jsonlint '' x) \<and>
      analyze_file_content
        (fixed_world True (Inr (''{'' @ [CHR 0x22] @ ''debug'' @ [CHR 0x22] @ '': true}''))
           (Inr (PDict [(PStr ''debug'', PBool True)])) (Inl FileNotFoundError)) ''app.json'' ''json'' =
        Inr (lint @ [''Warning: Debug mode is enabled. Disable in production.'']))
   \<and> (\<exists>lint. (\<forall>x\<in>set lint. prefix ''jsonlint '' x) \<and>
      analyze_file_content
        (fixed_world True (Inr (''{'' @ [CHR 0x22] @ ''debug'' @ [CHR 0x22] @ '': false}''))
           (Inr (PDict [(PStr ''debug'', PBool False)])) (Inl FileNotFoundError)) ''app.json'' ''json'' =
        Inr (lint @ []))
   \<and> (\<exists>lint. (\<forall>x\<in>set lint. prefix ''jsonlint '' x) \<and>
      analyze_file_content
        (fixed_world True (Inr ''{}'') (Inr (PDict [])) (Inl FileNotFoundError)) ''app.json'' ''json'' =
        Inr (lint @ []))
   \<and> analyze_file_content
        (fixed_world True (Inr ''{}'') (Inr (PDict [])) (Inl OtherException)) ''app.json'' ''json'' =
        Inr [''Error: Failed to read file.'']"
proof -
  let ?y1 = "fixed_world True (Inr ''api_version: v1'') (Inr (PDict [(PStr ''api_version'', PStr ''v1'')]))
        (Inl FileNotFoundError)"
  let ?y2 = "fixed_world True (Inr ''api_version: v2'') (Inr (PDict [(PStr ''api_version'', PStr ''v2'')]))
        (Inr \<lparr>returncode = 0, stdout = [], stderr = []\<rparr>)"
  let ?c1 = "''{'' @ [CHR 0x22] @ ''debug'' @ [CHR 0x22] @ '': true}''"
  let ?c2 = "''{'' @ [CHR 0x22] @ ''debug'' @ [CHR 0x22] @ '': false}''"
  let ?j1 = "fixed_world True (Inr ?c1) (Inr (PDict [(PStr ''debug'', PBool True)])) (Inl FileNotFoundError)"
  let ?j2 = "fixed_world True (Inr ?c2) (Inr (PDict [(PStr ''debug'', PBool False)])) (Inl FileNotFoundError)"
  let ?j3 = "fixed_world True (Inr ''{}'') (Inr (PDict [])) (Inl FileNotFoundError)"
  let ?j4 = "fixed_world True (Inr ''{}'') (Inr (PDict [])) (Inl OtherException)"
  have ry1: "read_text ?y1 ''app.yaml'' = Inr ''api_version: v1''" by (simp add: fixed_world_def)
  have ry2: "read_text ?y2 ''app.yaml'' = Inr ''api_version: v2''" by (simp add: fixed_world_def)
  have rj1: "read_text ?j1 ''app.json'' = Inr ?c1" by (simp add: fixed_world_def)
  have rj2: "read_text ?j2 ''app.json'' = Inr ?c2" by (simp add: fixed_world_def)
  have rj3: "read_text ?j3 ''app.json'' = Inr ''{}''" by (simp add: fixed_world_def)
  have rj4: "read_text ?j4 ''app.json'' = Inr ''{}''" by (simp add: fixed_world_def)
  have d: "detect_filetype ''app.yaml'' = Some ''yaml''" by code_simp
  have hy1: "yaml_safe_load ?y1 ''api_version: v1'' = Inr (PDict [(PStr ''api_version'', PStr ''v1'')]) \<and>
      (''auto'' = ''yaml'' \<or> ''auto'' = ''auto'' \<and> detect_filetype ''app.yaml'' = Some ''yaml'') \<and>
      (subprocess_run ?y1 [''yamllint'', ''app.yaml''] = Inl FileNotFoundError \<or>
       (\<exists>r. subprocess_run ?y1 [''yamllint'', ''app.yaml''] = Inr r))"
    using d by (simp add: fixed_world_def)
  have hy2: "yaml_safe_load ?y2 ''api_version: v2'' = Inr (PDict [(PStr ''api_version'', PStr ''v2'')]) \<and>
      (''yaml'' = ''yaml'' \<or> ''yaml'' = ''auto'' \<and> detect_filetype ''app.yaml'' = Some ''yaml'') \<and>
      (subprocess_run ?y2 [''yamllint'', ''app.yaml''] = Inl FileNotFoundError \<or>
       (\<exists>r. subprocess_run ?y2 [''yamllint'', ''app.yaml''] = Inr r))"
    by (simp add: fixed_world_def)
  have hj1: "json_loads ?j1 ?c1 = Inr (PDict [(PStr ''debug'', PBool True)]) \<and>
      (''json'' = ''json'' \<or> ''json'' = ''auto'' \<and> detect_filetype ''app.json'' = Some ''json'') \<and>
      (subprocess_run ?j1 [''jsonlint'', ''app.json''] = Inl FileNotFoundError \<or>
       (\<exists>r. subprocess_run ?j1 [''jsonlint'', ''app.json''] = Inr r))"
    by (simp add: fixed_world_def)
  have hj2: "json_loads ?j2 ?c2 = Inr (PDict [(PStr ''debug'', PBool False)]) \<and>
      (''json'' = ''json'' \<or> ''json'' = ''auto'' \<and> detect_filetype ''app.json'' = Some ''json'') \<and>
      (subprocess_run ?j2 [''jsonlint'', ''app.json''] = Inl FileNotFoundError \<or>
       (\<exists>r. subprocess_run ?j2 [''jsonlint'', ''app.json''] = Inr r))"
    by (simp add: fixed_world_def)
  have hj3: "json_loads ?j3 ''{}'' = Inr (PDict []) \<and>
      (''json'' = ''json'' \<or> ''json'' = ''auto'' \<and> detect_filetype ''app.json'' = Some ''json'') \<and>
      (subprocess_run ?j3 [''jsonlint'', ''app.json''] = Inl FileNotFoundError \<or>
       (\<exists>r. subprocess_run ?j3 [''jsonlint'', ''app.json''] = Inr r))"
    by (simp add: fixed_world_def)
  have hj4: "json_loads ?j4 ''{}'' = Inr (PDict []) \<and>
      (''json'' = ''json'' \<or> ''json'' = ''auto'' \<and> detect_filetype ''app.json'' = Some ''json'') \<and>
      subprocess_run ?j4 [''jsonlint'', ''app.json''] = Inl OtherException \<and>
      OtherException \<noteq> FileNotFoundError \<and> (\<forall>m. OtherException \<noteq> JSONDecodeError m)"
    by (simp add: fixed_world_def)
  have a: "\<exists>lint. (\<forall>x\<in>set lint. prefix ''yamllint '' x) \<and>
      analyze_file_content ?y1 ''app.yaml'' ''auto'' =
        Inr (lint @ [''Warning: api_version is v1, consider upgrading to a newer version.''])"
    using rule_engine_findings[OF ry1, where filetype = "''auto''"
        and kvs = "[(PStr ''api_version'', PStr ''v1'')]", THEN conjunct1, THEN mp, OF hy1] by simp
  have b: "\<exists>lint. (\<forall>x\<in>set lint. prefix ''yamllint '' x) \<and>
      analyze_file_content ?y2 ''app.yaml'' ''yaml'' = Inr (lint @ [])"
    using rule_engine_findings[OF ry2, where filetype = "''yaml''"
        and kvs = "[(PStr ''api_version'', PStr ''v2'')]", THEN conjunct1, THEN mp, OF hy2] by simp
  have c: "\<exists>lint. (\<forall>x\<in>set lint. prefix ''jsonlint '' x) \<and>
      analyze_file_content ?j1 ''app.json'' ''json'' =
        Inr (lint @ [''Warning: Debug mode is enabled. Disable in production.''])"
    using rule_engine_findings[OF rj1, where filetype = "''json''"
        and kvs = "[(PStr ''debug'', PBool True)]", THEN conjunct2, THEN conjunct1, THEN mp, OF hj1] by simp
  have d': "\<exists>lint. (\<forall>x\<in>set lint. prefix ''jsonlint '' x) \<and>
      analyze_file_content ?j2 ''app.json'' ''json'' = Inr (lint @ [])"
    using rule_engine_findings[OF rj2, where filetype = "''json''"
        and kvs = "[(PStr ''debug'', PBool False)]", THEN conjunct2, THEN conjunct1, THEN mp, OF hj2] by simp
  have e: "\<exists>lint. (\<forall>x\<in>set lint. prefix ''jsonlint '' x) \<and>
      analyze_file_content ?j3 ''app.json'' ''json'' = Inr (lint @ [])"
    using rule_engine_findings[OF rj3, where filetype = "''json''" and kvs = "[]",
        THEN conjunct2, THEN conjunct1, THEN mp, OF hj3] by simp
  have f: "analyze_file_content ?j4 ''app.json'' ''json'' = Inr [''Error: Failed to read file.'']"
    by (rule rule_engine_findings[OF rj4, where filetype = "''json''" and kvs = "[]"
        and e = OtherException, THEN conjunct2, THEN conjunct2, THEN conjunct2, THEN mp, OF hj4])
  from a b c d' e f show ?thesis by (intro conjI)
qed

text \<open>
  The claim as written has no condition on the linter: when \<open>subprocess.run\<close> raises anything
  but \<open>FileNotFoundError\<close>, the outer handler replaces the result, and a valid document with
  \<open>api_version: v1\<close> yields no rule warning.
\<close>

theorem rule_engine_linter_failure_counterexample:
  "analyze_file_content
     (fixed_world True (Inr (''api_version: v1'' @ [LF]))
        (Inr (PDict [(PStr ''api_version'', PStr ''v1'')])) (Inl OtherException))
     ''app.yaml'' ''yaml'' = Inr [''Error: Failed to read file.'']"
  by code_simp

subsection \<open>Malformed documents\<close>




subsection \<open>The order of the findings\<close>

text \<open>
  Claim C5, as amended. For a yaml or json file that parses, the result lists the external
  linter's finding first, then the rule finding, then the secret findings when they are
  requested; there are no comment-scan findings in it. For a file of unrecognised type under
  \<open>auto\<close> it lists the comment-scan findings, then the secret findings when requested.
\<close>

theorem findings_order:
  assumes "find_secrets w (arg_filepath a) = Inr secrets"
  shows "(read_text w (arg_filepath a) = Inr content \<and> yaml_safe_load w content = Inr data \<and>
          yamllint_check w (arg_filepath a) [] = Inr lint \<and>
          (arg_filetype a = ''yaml'' \<or>
           arg_filetype a = ''auto'' \<and> detect_filetype (arg_filepath a) = Some ''yaml'') \<longrightarrow>
          analysis_results a w =
            Inr (lint @ yaml_rules data [] @ (if arg_find_secrets a then secrets else [])))
       \<and> (read_text w (arg_filepath a) = Inr content \<and> json_loads w content = Inr data \<and>
          jsonlint_check w (arg_filepath a) [] = Inr lint \<and>
          (arg_filetype a = ''json'' \<or>
           arg_filetype a = ''auto'' \<and> detect_filetype (arg_filepath a) = Some ''json'') \<longrightarrow>
          analysis_results a w =
            Inr (lint @ json_rules data [] @ (if arg_find_secrets a then secrets else [])))
       \<and> (arg_filetype a = ''auto'' \<and> detect_filetype (arg_filepath a) = None \<and>
          analyze_comments w (arg_filepath a) = Inr scan \<longrightarrow>
          analysis_results a w = Inr (scan @ (if arg_find_secrets a then secrets else [])))"
proof (intro conjI impI)
  assume h: "read_text w (arg_filepath a) = Inr content \<and> yaml_safe_load w content = Inr data \<and>
          yamllint_check w (arg_filepath a) [] = Inr lint \<and>
          (arg_filetype a = ''yaml'' \<or>
           arg_filetype a = ''auto'' \<and> detect_filetype (arg_filepath a) = Some ''yaml'')"
  then have "analyze_yaml w (arg_filepath a) content [] = Inr (lint @ yaml_rules data [])"
    by (simp add: analyze_yaml_parsed)
  with h have "analyze_file_content w (arg_filepath a) (arg_filetype a) = Inr (lint @ yaml_rules data [])"
    using analyze_file_content_yaml[of w "arg_filepath a" content "arg_filetype a"] by blast
  from analysis_results_append[OF this assms]
  show "analysis_results a w =
            Inr (lint @ yaml_rules data [] @ (if arg_find_secrets a then secrets else []))"
    by simp
next
  assume h: "read_text w (arg_filepath a) = Inr content \<and> json_loads w content = Inr data \<and>
          jsonlint_check w (arg_filepath a) [] = Inr lint \<and>
          (arg_filetype a = ''json'' \<or>
           arg_filetype a = ''auto'' \<and> detect_filetype (arg_filepath a) = Some ''json'')"
  then have "analyze_json w (arg_filepath a) content [] = Inr (lint @ json_rules data [])"
    by (simp add: analyze_json_parsed)
  with h have "analyze_file_content w (arg_filepath a) (arg_filetype a) = Inr (lint @ json_rules data [])"
    using analyze_file_content_json[of w "arg_filepath a" content "arg_filetype a"] by blast
  from analysis_results_append[OF this assms]
  show "analysis_results a w =
            Inr (lint @ json_rules data [] @ (if arg_find_secrets a then secrets else []))"
    by simp
next
  assume h: "arg_filetype a = ''auto'' \<and> detect_filetype (arg_filepath a) = None \<and>
          analyze_comments w (arg_filepath a) = Inr scan"
  then have "analyze_file_content w (arg_filepath a) (arg_filetype a) = Inr scan"
    by (simp add: analyze_file_content_unknown)
  from analysis_results_append[OF this assms]
  show "analysis_results a w = Inr (scan @ (if arg_find_secrets a then secrets else []))" .
qed

theorem findings_order_witness:
  "analysis_results (cli ''app.yaml'' ''auto'' True)
     (fixed_world True (Inr (''api_version: v1'' @ [LF] @ ''secret: abcdefghijklmnopqrstuvwxyz'' @ [LF]))
        (Inr (PDict [(PStr ''api_version'', PStr ''v1''), (PStr ''secret'', PStr ''abcdefghijklmnopqrstuvwxyz'')]))
        (Inr \<lparr>returncode = 1, stdout = ''1:1 warning missing document start'', stderr = []\<rparr>)) =
   Inr [''yamllint found issues:'' @ [LF] @ ''1:1 warning missing document start'',
        ''Warning: api_version is v1, consider upgrading to a newer version.'',
        ''Potential secret found on line 2: secret: abcdefghijklmnopqrstuvwxyz'']"
proof -
  let ?c = "''api_version: v1'' @ [LF] @ ''secret: abcdefghijklmnopqrstuvwxyz'' @ [LF]"
  let ?d = "PDict [(PStr ''api_version'', PStr ''v1''), (PStr ''secret'', PStr ''abcdefghijklmnopqrstuvwxyz'')]"
  let ?w = "fixed_world True (Inr ?c) (Inr ?d)
        (Inr \<lparr>returncode = 1, stdout = ''1:1 warning missing document start'', stderr = []\<rparr>)"
  let ?a = "cli ''app.yaml'' ''auto'' True"
  have s: "find_secrets ?w (arg_filepath ?a) =
      Inr [''Potential secret found on line 2: secret: abcdefghijklmnopqrstuvwxyz'']"
    by code_simp
  have h: "read_text ?w (arg_filepath ?a) = Inr ?c \<and> yaml_safe_load ?w ?c = Inr ?d \<and>
          yamllint_check ?w (arg_filepath ?a) [] =
            Inr [''yamllint found issues:'' @ [LF] @ ''1:1 warning missing document start''] \<and>
          (arg_filetype ?a = ''yaml'' \<or>
           arg_filetype ?a = ''auto'' \<and> detect_filetype (arg_filepath ?a) = Some ''yaml'')"
    by code_simp
  have r: "yaml_rules ?d [] = [''Warning: api_version is v1, consider upgrading to a newer version.'']"
    by code_simp
  have "analysis_results ?a ?w =
      Inr ([''yamllint found issues:'' @ [LF] @ ''1:1 warning missing document start''] @
           yaml_rules ?d [] @
           (if arg_find_secrets ?a
            then [''Potential secret found on line 2: secret: abcdefghijklmnopqrstuvwxyz''] else []))"
    using findings_order[OF s, where content = ?c and data = ?d
        and lint = "[''yamllint found issues:'' @ [LF] @ ''1:1 warning missing document start'']"] h
    by blast
  then show ?thesis unfolding r by (simp add: cli_def)
qed

text \<open>
  The claim as written (rule findings before linter findings) fails as soon as both are
  present: the linter runs, and appends, before the rule is tested.
\<close>

theorem findings_order_counterexample:
  "analysis_results (cli ''service.yaml'' ''auto'' False)
     (fixed_world True (Inr (''api_version: v1'' @ [LF]))
        (Inr (PDict [(PStr ''api_version'', PStr ''v1'')]))
        (Inr \<lparr>returncode = 1, stdout = ''1:1 warning missing document start'', stderr = []\<rparr>)) =
   Inr [''yamllint found issues:'' @ [LF] @ ''1:1 warning missing document start'',
        ''Warning: api_version is v1, consider upgrading to a newer version.'']"
  by code_simp

subsection \<open>A marker and a staleness keyword on one line\<close>

text \<open>
  Claim C6, as amended. A line yields the two warnings when each pattern matches it, that is
  when \<open>TODO\<close>, \<open>FIXME\<close> or \<open>XXX\<close> and a staleness keyword each stand directly after a comment
  token of their own (optional whitespace between); the marker warning comes first. No line
  yields more than two warnings.
\<close>

theorem marker_and_staleness_two_warnings:
  assumes "read_text w filepath = Inr content"
    and "i < length (file_lines content)"
    and "file_lines content ! i = pre @ tok @ ws @ m @ rest"
    and "tok \<in> {''#'', ''//'', ''/*''}"
    and "\<forall>c\<in>set ws. py_isspace c"
    and "m \<in> {''TODO'', ''FIXME'', ''XXX''}"
    and "file_lines content ! i = pre' @ tok' @ ws' @ kw @ rest'"
    and "tok' \<in> {''#'', ''//'', ''/*''}"
    and "\<forall>c\<in>set ws'. py_isspace c"
    and "py_lower kw \<in> {''deprecated'', ''obsolete'', ''old''}"
  shows "comments_loop i [file_lines content ! i] [] =
           [todo_warning i (file_lines content ! i), outdated_warning i (file_lines content ! i)]
         \<and> analyze_comments w filepath =
           Inr (comments_loop 0 (take i (file_lines content)) [] @
                [todo_warning i (file_lines content ! i), outdated_warning i (file_lines content ! i)] @
                comments_loop (Suc i) (drop (Suc i) (file_lines content)) [])
         \<and> length (comments_loop j [l] []) \<le> 2"
proof -
  have m: "re_search False marker_re (file_lines content ! i)"
    using assms(3-6) by (simp add: marker_shape)
  have "re_search True outdated_re (pre' @ tok' @ ws' @ kw @ rest')"
    using assms(8-10) by (rule outdated_shape)
  then have o: "re_search True outdated_re (file_lines content ! i)"
    using assms(7) by simp
  have line: "comments_loop i [file_lines content ! i] [] =
           [todo_warning i (file_lines content ! i), outdated_warning i (file_lines content ! i)]"
    using m o by (simp add: comments_loop_line)
  have len: "length (comments_loop j [l] []) \<le> 2"
    by (simp add: comments_loop_line)
  from line len analyze_comments_at[OF assms(1,2)] show ?thesis by simp
qed

theorem marker_and_staleness_two_warnings_witness:
  "analyze_comments
     (fixed_world True (Inr ''# TODO /* Deprecated */'') (Inr PNone) (Inl FileNotFoundError))
     ''notes.txt'' =
   Inr [''Warning: Potential TODO/FIXME/XXX found on line 1: # TODO /* Deprecated */'',
        ''Warning: Potential outdated comment found on line 1: # TODO /* Deprecated */'']"
proof -
  let ?c = "''# TODO /* Deprecated */''"
  let ?w = "fixed_world True (Inr ?c) (Inr PNone) (Inl FileNotFoundError)"
  have 1: "read_text ?w ''notes.txt'' = Inr ?c" by (simp add: fixed_world_def)
  have 2: "0 < length (file_lines ?c)" by code_simp
  have 3: "file_lines ?c ! 0 = [] @ ''#'' @ '' '' @ ''TODO'' @ '' /* Deprecated */''" by code_simp
  have 4: "''#'' \<in> {''#'', ''//'', ''/*''}" by simp
  have 5: "\<forall>c\<in>set '' ''. py_isspace c" by (simp add: py_isspace_def)
  have 6: "''TODO'' \<in> {''TODO'', ''FIXME'', ''XXX''}" by simp
  have 7: "file_lines ?c ! 0 = ''# TODO '' @ ''/*'' @ '' '' @ ''Deprecated'' @ '' */''" by code_simp
  have 8: "''/*'' \<in> {''#'', ''//'', ''/*''}" by simp
  have 9: "py_lower ''Deprecated'' \<in> {''deprecated'', ''obsolete'', ''old''}" by code_simp
  have b: "comments_loop 0 (take 0 (file_lines ?c)) [] = []" by code_simp
  have t: "todo_warning 0 (file_lines ?c ! 0) =
      ''Warning: Potential TODO/FIXME/XXX found on line 1: # TODO /* Deprecated */''" by code_simp
  have o: "outdated_warning 0 (file_lines ?c ! 0) =
      ''Warning: Potential outdated comment found on line 1: # TODO /* Deprecated */''" by code_simp
  have a: "comments_loop (Suc 0) (drop (Suc 0) (file_lines ?c)) [] = []" by code_simp
  have "analyze_comments ?w ''notes.txt'' =
          Inr (comments_loop 0 (take 0 (file_lines ?c)) [] @
               [todo_warning 0 (file_lines ?c ! 0), outdated_warning 0 (file_lines ?c ! 0)] @
               comments_loop (Suc 0) (drop (Suc 0) (file_lines ?c)) [])"
    using marker_and_staleness_two_warnings[OF 1 2 3 4 5 6 7 8 5 9]
    by (rule conjunct1[OF conjunct2])
  then show ?thesis unfolding b t o a by simp
qed

text \<open>
  The claim as written fails where the word \<open>deprecated\<close> comes later in the comment: the
  staleness pattern wants its keyword right after the comment token, and the line has only the
  marker warning.
\<close>

theorem marker_and_staleness_counterexample:
  "analyze_comments
     (fixed_world True (Inr ''# TODO: drop the deprecated key'') (Inr PNone) (Inl FileNotFoundError))
     ''notes.txt'' =
   Inr [''Warning: Potential TODO/FIXME/XXX found on line 1: # TODO: drop the deprecated key'']"
  by code_simp


subsection \<open>The credential heuristic\<close>

text \<open>
  Claim C7, as amended. A line that holds one of the key fragments \<open>api_key\<close>, \<open>apikey\<close>,
  \<open>password\<close>, \<open>secret\<close> in any letter case, then optional whitespace, then a separator \<open>:\<close> or
  \<open>=\<close> (required), then optional whitespace, an optional quote and at least 20 characters among
  letters, digits, \<open>_\<close> and \<open>-\<close>, yields exactly one secret warning for that line; with
  \<open>--find-secrets\<close> the secret warnings end the result, and without it the result holds none.
\<close>

theorem secret_line_warning:
  assumes "read_text w filepath = Inr content"
    and "i < length (file_lines content)"
    and "file_lines content ! i = pre @ key @ ws @ [sep] @ ws' @ q @ tk @ rest"
    and "py_lower key \<in> {''api_key'', ''apikey'', ''password'', ''secret''}"
    and "\<forall>c\<in>set ws. py_isspace c"
    and "is_sep sep"
    and "\<forall>c\<in>set ws'. py_isspace c"
    and "q = [] \<or> (\<exists>c. q = [c] \<and> is_quote c)"
    and "20 \<le> length tk"
    and "\<forall>c\<in>set tk. is_token_char c"
  shows "secrets_loop i [file_lines content ! i] [] = [secret_warning i (file_lines content ! i)]
       \<and> find_secrets w filepath =
           Inr (secrets_loop 0 (take i (file_lines content)) [] @
                [secret_warning i (file_lines content ! i)] @
                secrets_loop (Suc i) (drop (Suc i) (file_lines content)) [])
       \<and> (arg_filepath a = filepath \<and> arg_find_secrets a \<longrightarrow>
            (\<exists>results. analyze_file_content w filepath (arg_filetype a) = Inr results \<and>
               analysis_results a w =
                 Inr (results @ secrets_loop 0 (take i (file_lines content)) [] @
                      [secret_warning i (file_lines content ! i)] @
                      secrets_loop (Suc i) (drop (Suc i) (file_lines content)) [])))
       \<and> (\<not> arg_find_secrets b \<longrightarrow>
            (\<exists>results. analysis_results b v = Inr results \<and>
               (\<forall>x\<in>set results. \<not> prefix ''Potential secret found on line '' x)))
       \<and> (\<forall>x\<in>set (secrets_loop j ls []). prefix ''Potential secret found on line '' x)"
proof (intro conjI impI)
  show "\<forall>x\<in>set (secrets_loop j ls []). prefix ''Potential secret found on line '' x"
    using secrets_loop_heads by blast
  have hit: "re_search True secret_re (file_lines content ! i)"
    unfolding assms(3) using assms(4-10) by (rule secret_shape)
  then show line: "secrets_loop i [file_lines content ! i] [] = [secret_warning i (file_lines content ! i)]"
    by (simp add: secrets_loop_line)
  show found: "find_secrets w filepath =
           Inr (secrets_loop 0 (take i (file_lines content)) [] @
                [secret_warning i (file_lines content ! i)] @
                secrets_loop (Suc i) (drop (Suc i) (file_lines content)) [])"
    using find_secrets_at[OF assms(1,2)] unfolding line .
  {
    assume h: "arg_filepath a = filepath \<and> arg_find_secrets a"
    obtain results where r: "analyze_file_content w (arg_filepath a) (arg_filetype a) = Inr results"
      using analyze_file_content_returns by blast
    from h found have "find_secrets w (arg_filepath a) =
           Inr (secrets_loop 0 (take i (file_lines content)) [] @
                [secret_warning i (file_lines content ! i)] @
                secrets_loop (Suc i) (drop (Suc i) (file_lines content)) [])" by simp
    from analysis_results_append[OF r this] h r
    show "\<exists>results. analyze_file_content w filepath (arg_filetype a) = Inr results \<and>
               analysis_results a w =
                 Inr (results @ secrets_loop 0 (take i (file_lines content)) [] @
                      [secret_warning i (file_lines content ! i)] @
                      secrets_loop (Suc i) (drop (Suc i) (file_lines content)) [])"
      by auto
  }
  {
    assume h: "\<not> arg_find_secrets b"
    obtain results where r: "analyze_file_content v (arg_filepath b) (arg_filetype b) = Inr results"
      using analyze_file_content_returns by blast
    with h have "analysis_results b v = Inr results" by (simp add: analysis_results_def)
    moreover have "\<forall>x\<in>set results. \<not> prefix ''Potential secret found on line '' x"
      using analyze_file_content_no_secret[OF r] by blast
    ultimately show "\<exists>results. analysis_results b v = Inr results \<and>
               (\<forall>x\<in>set results. \<not> prefix ''Potential secret found on line '' x)" by blast
  }
qed

theorem secret_line_warning_witness:
  "analysis_results (cli ''notes.txt'' ''auto'' True)
     (fixed_world True
        (Inr (''password = '' @ [CHR 0x22] @ ''abcdefghijklmnopqrstuvwxyz'' @ [CHR 0x22]))
        (Inr PNone) (Inl FileNotFoundError)) =
     Inr [''Potential secret found on line 1: password = '' @ [CHR 0x22] @
          ''abcdefghijklmnopqrstuvwxyz'' @ [CHR 0x22]]
   \<and> analysis_results (cli ''notes.txt'' ''auto'' False)
     (fixed_world True
        (Inr (''password = '' @ [CHR 0x22] @ ''abcdefghijklmnopqrstuvwxyz'' @ [CHR 0x22]))
        (Inr PNone) (Inl FileNotFoundError)) = Inr []"
proof -
  let ?c = "''password = '' @ [CHR 0x22] @ ''abcdefghijklmnopqrstuvwxyz'' @ [CHR 0x22]"
  let ?w = "fixed_world True (Inr ?c) (Inr PNone) (Inl FileNotFoundError)"
  let ?a = "cli ''notes.txt'' ''auto'' True"
  have 1: "read_text ?w ''notes.txt'' = Inr ?c" by (simp add: fixed_world_def)
  have 2: "0 < length (file_lines ?c)" by code_simp
  have 3: "file_lines ?c ! 0 =
      [] @ ''password'' @ '' '' @ [CHR ''=''] @ '' '' @ [CHR 0x22] @ ''abcdefghijklmnopqrstuvwxyz'' @ [CHR 0x22]"
    by code_simp
  have 4: "py_lower ''password'' \<in> {''api_key'', ''apikey'', ''password'', ''secret''}" by code_simp
  have 5: "\<forall>c\<in>set '' ''. py_isspace c" by (simp add: py_isspace_def)
  have 6: "is_sep CHR ''=''" by (simp add: is_sep_def)
  have 7: "[CHR 0x22] = [] \<or> (\<exists>c. [CHR 0x22] = [c] \<and> is_quote c)" by (simp add: is_quote_def)
  have 8: "20 \<le> length ''abcdefghijklmnopqrstuvwxyz''" by simp
  have 9: "\<forall>c\<in>set ''abcdefghijklmnopqrstuvwxyz''. is_token_char c" by code_simp
  have f: "arg_filepath ?a = ''notes.txt'' \<and> arg_find_secrets ?a" by (simp add: cli_def)
  have g: "\<not> arg_find_secrets (cli ''notes.txt'' ''auto'' False)" by (simp add: cli_def)
  have b: "secrets_loop 0 (take 0 (file_lines ?c)) [] = []" by code_simp
  have m: "secret_warning 0 (file_lines ?c ! 0) =
      ''Potential secret found on line 1: password = '' @ [CHR 0x22] @
          ''abcdefghijklmnopqrstuvwxyz'' @ [CHR 0x22]" by code_simp
  have e: "secrets_loop (Suc 0) (drop (Suc 0) (file_lines ?c)) [] = []" by code_simp
  have n: "analyze_file_content ?w ''notes.txt'' (arg_filetype ?a) = Inr []" by code_simp
  note t = secret_line_warning[OF 1 2 3 4 5 6 5 7 8 9, where a = ?a
      and b = "cli ''notes.txt'' ''auto'' False" and v = ?w]
  from t f have "\<exists>results. analyze_file_content ?w ''notes.txt'' (arg_filetype ?a) = Inr results \<and>
      analysis_results ?a ?w =
        Inr (results @ secrets_loop 0 (take 0 (file_lines ?c)) [] @
             [secret_warning 0 (file_lines ?c ! 0)] @
             secrets_loop (Suc 0) (drop (Suc 0) (file_lines ?c)) [])"
    by blast
  then have x: "analysis_results ?a ?w =
      Inr [''Potential secret found on line 1: password = '' @ [CHR 0x22] @
          ''abcdefghijklmnopqrstuvwxyz'' @ [CHR 0x22]]"
    unfolding n b m e by simp
  have y: "analysis_results (cli ''notes.txt'' ''auto'' False) ?w = Inr []" by code_simp
  from x y show ?thesis by blast
qed

text \<open>
  The claim as written takes the separator as optional; the pattern requires it, and a key
  fragment followed at once by a quoted token of 26 letters is not flagged.
\<close>

theorem secret_without_separator_counterexample:
  "analysis_results (cli ''notes.txt'' ''auto'' True)
     (fixed_world True
        (Inr (''password'' @ [CHR 0x22] @ ''abcdefghijklmnopqrstuvwxyz'' @ [CHR 0x22]))
        (Inr PNone) (Inl FileNotFoundError)) = Inr []"
  by code_simp

subsection \<open>Exit status\<close>




subsection \<open>Detection by suffix, in any letter case\<close>




subsection \<open>Staleness keywords are matched as prefixes\<close>

text \<open>
  Claim C10. The staleness check matches its keywords as bare substrings: on a line where a
  comment token (\<open>#\<close>, \<open>//\<close> or \<open>/*\<close>) is followed by optional whitespace and then by
  text that begins, in any letter case, with \<open>deprecated\<close>, \<open>obsolete\<close> or \<open>old\<close>, whatever
  follows (as in \<open># older settings\<close>), \<open>analyze_comments\<close> emits the outdated-comment warning
  for that line, with its 1-based number.
\<close>

theorem staleness_keyword_prefix:
  assumes "read_text w filepath = Inr content"
    and "i < length (file_lines content)"
    and "file_lines content ! i = pre @ tok @ ws @ kw @ rest"
    and "tok \<in> {''#'', ''//'', ''/*''}"
    and "\<forall>c\<in>set ws. py_isspace c"
    and "py_lower kw \<in> {''deprecated'', ''obsolete'', ''old''}"
  shows "\<exists>before after.
           analyze_comments w filepath =
             Inr (before @ [outdated_warning i (file_lines content ! i)] @ after)"
proof -
  let ?ls = "file_lines content"
  have hit: "re_search True outdated_re (?ls ! i)"
    using assms(3-6) by (simp add: outdated_shape)
  have "comments_loop 0 ?ls [] =
          comments_loop 0 (take i ?ls) [] @ comments_loop i [?ls ! i] [] @
          comments_loop (Suc i) (drop (Suc i) ?ls) []"
    using assms(2) by (rule comments_loop_split)
  also have "comments_loop i [?ls ! i] [] =
          (if re_search False marker_re (?ls ! i) then [todo_warning i (?ls ! i)] else []) @
          [outdated_warning i (?ls ! i)]"
    using hit by (simp add: comments_loop_line)
  finally have "comments_loop 0 ?ls [] =
      (comments_loop 0 (take i ?ls) [] @
        (if re_search False marker_re (?ls ! i) then [todo_warning i (?ls ! i)] else [])) @
      [outdated_warning i (?ls ! i)] @ comments_loop (Suc i) (drop (Suc i) ?ls) []"
    by simp
  then show ?thesis
    using analyze_comments_read[OF assms(1)] by metis
qed

theorem staleness_keyword_prefix_witness:
  "analyze_comments (fixed_world True (Inr ''# older settings'') (Inr PNone) (Inl FileNotFoundError))
     ''notes.content'' =
   Inr [''Warning: Potential outdated comment found on line 1: # older settings'']
   \<and> (\<exists>before after.
        analyze_comments (fixed_world True (Inr ''# older settings'') (Inr PNone) (Inl FileNotFoundError))
          ''notes.content'' =
        Inr (before @ [outdated_warning 0 (file_lines ''# older settings'' ! 0)] @ after))"
proof
  show "analyze_comments (fixed_world True (Inr ''# older settings'') (Inr PNone) (Inl FileNotFoundError))
     ''notes.content'' =
   Inr [''Warning: Potential outdated comment found on line 1: # older settings'']"
    by code_simp
  show "\<exists>before after.
        analyze_comments (fixed_world True (Inr ''# older settings'') (Inr PNone) (Inl FileNotFoundError))
          ''notes.content'' =
        Inr (before @ [outdated_warning 0 (file_lines ''# older settings'' ! 0)] @ after)"
  proof (rule staleness_keyword_prefix[where content = "''# older settings''" and pre = "[]"
        and tok = "''#''" and ws = "'' ''" and kw = "''old''" and rest = "''er settings''"])
    show "read_text (fixed_world True (Inr ''# older settings'') (Inr PNone) (Inl FileNotFoundError))
       ''notes.content'' = Inr ''# older settings''"
      by (simp add: fixed_world_def)
    show "0 < length (file_lines ''# older settings'')" by code_simp
    show "file_lines ''# older settings'' ! 0 = [] @ ''#'' @ '' '' @ ''old'' @ ''er settings''"
      by code_simp
    show "''#'' \<in> {''#'', ''//'', ''/*''}" by simp
    show "\<forall>c\<in>set '' ''. py_isspace c" by (simp add: py_isspace_def)
    show "py_lower ''old'' \<in> {''deprecated'', ''obsolete'', ''old''}" by code_simp
  qed
qed

end
